theory Spec2Isabelle
  imports Main "HOL-Library.Word"
begin

section \<open>Qt string operations used by the sources\<close>

text \<open>
  \<open>QString\<close> values are modelled as \<open>string\<close>. The operations below are the
  ones the two source files call on them.
\<close>

definition startsWith :: "string \<Rightarrow> string \<Rightarrow> bool" where
  \<comment> \<open>\<open>s.startsWith(pre)\<close>\<close>
  "startsWith s pre = (take (length pre) s = pre)"

definition endsWith :: "string \<Rightarrow> string \<Rightarrow> bool" where
  \<comment> \<open>\<open>s.endsWith(suf)\<close>\<close>
  "endsWith s suf = (length suf \<le> length s \<and> drop (length s - length suf) s = suf)"

definition mid :: "string \<Rightarrow> nat \<Rightarrow> string" where
  \<comment> \<open>\<open>s.mid(pos)\<close>: the rest of the string from index \<open>pos\<close>, empty past the end\<close>
  "mid s pos = drop pos s"

fun contains_str :: "string \<Rightarrow> string \<Rightarrow> bool" where
  \<comment> \<open>\<open>s.contains(needle)\<close>: the needle occurs at some index of \<open>s\<close>\<close>
  "contains_str [] needle = (needle = [])"
| "contains_str (c # cs) needle = (startsWith (c # cs) needle \<or> contains_str cs needle)"

fun join_str :: "string list \<Rightarrow> string \<Rightarrow> string" where
  \<comment> \<open>\<open>QStringList::join(sep)\<close>\<close>
  "join_str [] sep = []"
| "join_str [x] sep = x"
| "join_str (x # y # zs) sep = x @ sep @ join_str (y # zs) sep"

section \<open>Visibility of a block device: \<open>ignoreBlkDevice\<close>\<close>

text \<open>
  The partition types that the \<open>switch\<close> of \<open>ignoreBlkDevice\<close> names, and one
  constructor for every other value of \<open>DBlockPartition::Type\<close> (the \<open>default\<close> branch).
\<close>

datatype partition_type =
    Win95_Extended_LBA
  | Linux_extended
  | DRDOS_sec_extend
  | Multiuser_DOS_extend
  | Extended
  | Other_partition_type nat

text \<open>
  What \<open>ignoreBlkDevice\<close> reads from the block device. \<open>partition\<close> is the result of
  \<open>DDiskManager::createBlockPartition(blkPath)\<close> followed by \<open>eType()\<close>: \<open>None\<close> when
  the pointer is null. \<open>blk_size\<close> is a \<open>qulonglong\<close>. The other block-device fields are
  read by the enumeration and by the watcher.
\<close>

record DBlockDevice =
  hintIgnore :: bool
  isEncrypted :: bool
  hasPartition :: bool
  partition :: "partition_type option"
  hasFileSystem :: bool
  isLoopDevice :: bool
  cryptoBackingDevice :: string
  cleartextDevice :: string
  hasPartitionTable :: bool
  blk_size :: "64 word"
  hintSystem :: bool
  idUUID :: string
  device :: string
  mountPoints :: "string list"

record DDiskDevice =
  mediaCompatibility :: "string list"
  removable :: bool

text \<open>The \<open>qInfo\<close> line that \<open>ignoreBlkDevice\<close> prints before it returns, if any.\<close>

datatype ignore_log =
    Ignored_by_HintIgnore
  | Ignored_by_Partition_type
  | Ignored_depends_on_HideLoop
  | Ignored_by_ClearTextDevice
  | Ignored_by_HasPartitionTable
  | Ignored_by_Unremovable_internal_disk
  | Ignored_by_Size_lt_1024

fun hidden_partition_type :: "partition_type option \<Rightarrow> bool" where
  \<comment> \<open>\<open>if (partition) switch (partition->eType())\<close>: the five cases that return\<close>
  "hidden_partition_type None = False"
| "hidden_partition_type (Some Win95_Extended_LBA) = True"
| "hidden_partition_type (Some Linux_extended) = True"
| "hidden_partition_type (Some DRDOS_sec_extend) = True"
| "hidden_partition_type (Some Multiuser_DOS_extend) = True"
| "hidden_partition_type (Some Extended) = True"
| "hidden_partition_type (Some (Other_partition_type n)) = False"

definition ignoreBlkDevice :: "bool \<Rightarrow> DBlockDevice \<Rightarrow> DDiskDevice \<Rightarrow> bool \<times> ignore_log option" where
  \<comment> \<open>The first argument is the generic attribute \<open>GA_HideLoopPartitions\<close>. The result is
      the returned boolean (\<open>True\<close>: ignore the device) and the line logged.\<close>
  "ignoreBlkDevice hideLoop blk drv =
    (if hintIgnore blk then (True, Some Ignored_by_HintIgnore)
     else if contains_str (join_str (mediaCompatibility drv) '','') ''optical'' then (False, None)
     else if isEncrypted blk then (False, None)
     else if hasPartition blk \<and> hidden_partition_type (partition blk)
       then (True, Some Ignored_by_Partition_type)
     else if hasFileSystem blk then
       (if isLoopDevice blk then (hideLoop, Some Ignored_depends_on_HideLoop)
        else if length (cryptoBackingDevice blk) > 1 then (True, Some Ignored_by_ClearTextDevice)
        else (False, None))
     else
       (if hasPartitionTable blk then (True, Some Ignored_by_HasPartitionTable)
        else if \<not> removable drv then (True, Some Ignored_by_Unremovable_internal_disk)
        else if blk_size blk < 1024 then (True, Some Ignored_by_Size_lt_1024)
        else (False, None)))"

subsection \<open>The visibility policy as the specification words it\<close>

text \<open>
  The specification gives the policy as an ordered list of rules, the first matching rule
  deciding. Each rule is a condition and the visibility it yields; a device that no rule
  matches is visible.
\<close>

fun first_match :: "(bool \<times> bool) list \<Rightarrow> bool \<Rightarrow> bool" where
  "first_match [] dflt = dflt"
| "first_match ((c, v) # rs) dflt = (if c then v else first_match rs dflt)"

definition visibility_rules :: "bool \<Rightarrow> DBlockDevice \<Rightarrow> DDiskDevice \<Rightarrow> (bool \<times> bool) list" where
  "visibility_rules hideLoop blk drv =
    [ (hintIgnore blk, False),
      (\<exists>m \<in> set (mediaCompatibility drv). contains_str m ''optical'', True),
      (isEncrypted blk, True),
      (hasPartition blk \<and> partition blk \<in> Some ` {Win95_Extended_LBA, Linux_extended,
          DRDOS_sec_extend, Multiuser_DOS_extend, Extended}, False),
      (hasFileSystem blk \<and> isLoopDevice blk, \<not> hideLoop),
      (hasFileSystem blk \<and> length (cryptoBackingDevice blk) > 1, False),
      (hasFileSystem blk, True),
      (hasPartitionTable blk, False),
      (\<not> removable drv, False),
      (blk_size blk < 1024, False) ]"

definition visible_spec :: "bool \<Rightarrow> DBlockDevice \<Rightarrow> DDiskDevice \<Rightarrow> bool" where
  "visible_spec hideLoop blk drv = first_match (visibility_rules hideLoop blk drv) True"

text \<open>Two concrete snapshots: a 512-byte partition without filesystem on a fixed drive.\<close>

definition blk_512 :: DBlockDevice where
  "blk_512 = \<lparr> hintIgnore = False, isEncrypted = False, hasPartition = True,
      partition = Some (Other_partition_type 131), hasFileSystem = False, isLoopDevice = False,
      cryptoBackingDevice = ''/'', cleartextDevice = ''/'',
      hasPartitionTable = False, blk_size = 512,
      hintSystem = False, idUUID = '''', device = ''/dev/sda3'', mountPoints = [] \<rparr>"

definition drv_fixed :: DDiskDevice where
  "drv_fixed = \<lparr> mediaCompatibility = [], removable = False \<rparr>"

text \<open>A 64 MiB FAT partition on a removable drive, mounted.\<close>

definition dev_sdb1 :: "string \<times> DBlockDevice \<times> DDiskDevice" where
  "dev_sdb1 = (''/org/freedesktop/UDisks2/block_devices/sdb1'',
      \<lparr> hintIgnore = False, isEncrypted = False, hasPartition = True,
        partition = Some (Other_partition_type 12), hasFileSystem = True, isLoopDevice = False,
        cryptoBackingDevice = ''/'', cleartextDevice = ''/'', hasPartitionTable = False,
        blk_size = 67108864, hintSystem = False, idUUID = ''1234-ABCD'', device = ''/dev/sdb1'',
        mountPoints = [''/media/user/KEY''] \<rparr>,
      \<lparr> mediaCompatibility = [''thumb''], removable = True \<rparr>)"

section \<open>Addresses: \<open>QUrl\<close> and \<open>DUrl\<close>\<close>

text \<open>
  A URL as the sources build it with \<open>setScheme\<close> and \<open>setPath\<close> (for instance
  \<open>DUrl::fromComputerFile\<close>): a scheme and a path, no authority, query or fragment.
  \<open>QUrl::operator==\<close> on such values is equality of the two components, that is, equality
  of the record.
\<close>

record QUrl =
  url_scheme :: string
  url_path :: string

definition schemeList :: "string set" where
  "schemeList = {''trash'', ''recent'', ''bookmark'', ''file'', ''computer'', ''search''}"

definition isLocalFile :: "QUrl \<Rightarrow> bool" where
  \<comment> \<open>\<open>QUrl::isLocalFile()\<close>: the scheme is \<open>file\<close>\<close>
  "isLocalFile u = (url_scheme u = ''file'')"

definition QUrl_isValid :: "QUrl \<Rightarrow> bool" where
  \<comment> \<open>\<open>QUrl::isValid()\<close> of the Qt library for a URL built with \<open>setScheme\<close> and
      \<open>setPath\<close>: it is not empty, its path does not start with two slashes (there is no
      authority), and without a scheme a relative path has no colon before its first slash.\<close>
  "QUrl_isValid u =
     (\<not> (url_scheme u = [] \<and> url_path u = [])
      \<and> \<not> startsWith (url_path u) ''//''
      \<and> (url_scheme u = [] \<longrightarrow> startsWith (url_path u) ''/''
            \<or> CHR '':'' \<notin> set (takeWhile (\<lambda>c. c \<noteq> CHR ''/'') (url_path u))))"

definition QUrl_toString :: "QUrl \<Rightarrow> string" where
  \<comment> \<open>\<open>QUrl::toString()\<close> of the Qt library for a URL without authority, query and
      fragment: empty for an invalid URL; otherwise the scheme and a colon when there is a
      scheme, two more slashes before an absolute path of a local file, then the path. The
      path is rendered as it is, which is what Qt does for letters, digits, dots and
      slashes.\<close>
  "QUrl_toString u =
     (if \<not> QUrl_isValid u then []
      else
        (if url_scheme u = [] then [] else url_scheme u @ '':'')
        @ (if isLocalFile u \<and> startsWith (url_path u) ''/'' then ''//'' else [])
        @ url_path u)"

definition replace_at0 :: "nat \<Rightarrow> string \<Rightarrow> string \<Rightarrow> string" where
  \<comment> \<open>\<open>s.replace(0, n, after)\<close>\<close>
  "replace_at0 n after s = after @ drop n s"

definition DUrl_toString :: "QUrl \<Rightarrow> string" where
  "DUrl_toString u =
     (if isLocalFile u \<or> url_scheme u \<notin> schemeList then QUrl_toString u
      else replace_at0 4 (url_scheme u) (QUrl_toString (u\<lparr>url_scheme := ''file''\<rparr>)))"

function qstr_remove :: "string \<Rightarrow> string \<Rightarrow> string" where
  \<comment> \<open>\<open>s.remove(needle)\<close> of \<open>QString\<close>: every occurrence of the needle is taken out, scanning
      from the left and resuming at the place of the removal; an empty needle removes
      nothing.\<close>
  "qstr_remove [] needle = []"
| "qstr_remove (c # cs) needle =
     (if needle \<noteq> [] \<and> startsWith (c # cs) needle
      then qstr_remove (drop (length needle) (c # cs)) needle
      else c # qstr_remove cs needle)"
  by pat_completeness auto
termination
  by (relation "measure (\<lambda>(s, needle). length s)") auto

definition DUrl_eq :: "QUrl \<Rightarrow> QUrl \<Rightarrow> bool" where
  \<comment> \<open>\<open>DUrl::operator==(const QUrl &url)\<close>. The left operand is rendered with
      \<open>DUrl::toString\<close>, the right one, a \<open>QUrl\<close> reference, with \<open>QUrl::toString\<close>.\<close>
  "DUrl_eq this url =
     (let ok = (this = url) in
      if ok \<or> url_scheme url \<notin> schemeList then ok
      else if \<bar>int (length (DUrl_toString this)) - int (length (QUrl_toString url))\<bar> \<noteq> 1 then False
      else
        let path1 = url_path this; path2 = url_path url in
        if \<bar>int (length path1) - int (length path2)\<bar> \<noteq> 1 then False
        else if length path1 > length path2 then qstr_remove path1 path2 = ''/''
        else qstr_remove path2 path1 = ''/'')"

definition computer_url :: "string \<Rightarrow> QUrl" where
  \<comment> \<open>The address that \<open>setScheme(COMPUTER_SCHEME, false)\<close> and
      \<open>setPath(path, mode, false)\<close> build. \<open>DUrl::fromComputerFile(path)\<close> is the same
      address when \<open>makeAbsolute\<close> leaves the path as it is.\<close>
  "computer_url path = \<lparr> url_scheme = ''computer'', url_path = path \<rparr>"


text \<open>
  Modelled from the spec: the macros \<open>DFMROOT_SCHEME\<close>, \<open>DFMROOT_ROOT\<close>, \<open>SUFFIX_USRDIR\<close>,
  \<open>SUFFIX_GVFSMP\<close>, \<open>SUFFIX_UDISKS\<close>, \<open>SUFFIX_STASHED_REMOTE\<close> and \<open>BURN_SCHEME\<close> are
  declared outside the sources. The specification names a scheme token for the virtual
  root and four suffix tags in the path (user directory, block device, GVFS mount point,
  stashed offline remote) without giving the strings; the strings below are the ones the
  file manager uses.
\<close>

definition DFMROOT_SCHEME :: string where "DFMROOT_SCHEME = ''dfmroot''"
definition DFMROOT_ROOT :: string where "DFMROOT_ROOT = ''dfmroot:///''"
definition SUFFIX_USRDIR :: string where "SUFFIX_USRDIR = ''userdir''"
definition SUFFIX_GVFSMP :: string where "SUFFIX_GVFSMP = ''gvfsmp''"
definition SUFFIX_UDISKS :: string where "SUFFIX_UDISKS = ''localdisk''"
definition SUFFIX_STASHED_REMOTE :: string where "SUFFIX_STASHED_REMOTE = ''remote''"
definition BURN_SCHEME :: string where "BURN_SCHEME = ''burn''"

text \<open>
  How the controller and the watcher construct the addresses they hand out: from a string,
  from a scheme and a path, or from a percent-encoded string.
\<close>

datatype DUrl_ctor =
    DUrl_string string
  | DUrl_scheme_path string string
  | DUrl_fromPercentEncoding string

section \<open>The root watcher\<close>

text \<open>The signals of \<open>DAbstractFileWatcher\<close> that carry one address (\<open>SignalType1\<close>).\<close>

datatype SignalType1 = fileDeleted | fileAttributeChanged | fileModified | fileClosed | subfileCreated

definition handleGhostSignal :: "QUrl \<Rightarrow> SignalType1 \<Rightarrow> QUrl \<Rightarrow> bool \<times> (SignalType1 \<times> DUrl_ctor) list" where
  \<comment> \<open>The result is the returned \<open>ok\<close> and the signals emitted on the watcher.\<close>
  "handleGhostSignal target signal url =
     (let path = url_path url in
      if startsWith path ''/dev/loop'' then
        (if signal = fileDeleted then
           (True, [(fileDeleted, DUrl_string (DFMROOT_ROOT @ mid path (length ''/dev/'') @ ''.'' @ SUFFIX_UDISKS))])
         else if signal = subfileCreated then (True, [])
         else (False, []))
      else (False, []))"

text \<open>
  A connection made by the watcher: one of the five on the two managers, or one on a block
  device object, with the signal and the address of the \<open>fileAttributeChanged\<close> it emits.
\<close>

datatype blk_signal = cleartextDeviceChanged | idLabelChanged | mountPointsChanged | sizeChanged | idTypeChanged

datatype connection =
    Conn_mountAdded
  | Conn_mountRemoved
  | Conn_volumeAdded
  | Conn_blockDeviceAdded
  | Conn_blockDeviceRemoved
  | Conn_blk string blk_signal string

text \<open>
  The private data of the watcher. \<open>vfsmgr\<close> tells whether the pointer is set; \<open>udisksmgr\<close>
  is \<open>None\<close> for a null pointer and otherwise holds the manager's watch-changes flag.
  \<open>blkdevs\<close> holds the object paths of the devices kept. \<open>qt_connections\<close> are the
  connections of this watcher that are attached in Qt; \<open>hiddenDirs\<close> is what the watcher
  appended to the device listener.
\<close>

record DFMRootFileWatcherPrivate =
  fileUrl :: QUrl
  started :: bool
  vfsmgr :: bool
  udisksmgr :: "bool option"
  connections :: "connection list"
  blkdevs :: "string list"
  connectionsurl :: "string list"
  qt_connections :: "connection list"
  hiddenDirs :: "string list"

definition new_watcher :: "QUrl \<Rightarrow> DFMRootFileWatcherPrivate" where
  \<comment> \<open>the state after \<open>DFMRootFileWatcher(url)\<close>\<close>
  "new_watcher url = \<lparr> fileUrl = url, started = False, vfsmgr = False, udisksmgr = None,
     connections = [], blkdevs = [], connectionsurl = [], qt_connections = [], hiddenDirs = [] \<rparr>"

definition connect :: "connection \<Rightarrow> DFMRootFileWatcherPrivate \<Rightarrow> DFMRootFileWatcherPrivate" where
  \<comment> \<open>\<open>connections.push_back(QObject::connect(...))\<close>\<close>
  "connect c w = w\<lparr> connections := connections w @ [c], qt_connections := qt_connections w @ [c] \<rparr>"

definition initBlockDevConnections ::
    "DBlockDevice \<Rightarrow> string \<Rightarrow> DFMRootFileWatcherPrivate \<Rightarrow> DFMRootFileWatcherPrivate" where
  "initBlockDevConnections blk devs w =
     (let w1 = w\<lparr> blkdevs := blkdevs w @ [devs] \<rparr>;
          urlstr = DFMROOT_ROOT @ mid devs (length ''/org/freedesktop/UDisks2/block_devices/'')
                     @ ''.'' @ SUFFIX_UDISKS
      in
      if isEncrypted blk then
        (let ct = cleartextDevice blk;
             w2 = w1\<lparr> blkdevs := blkdevs w1 @ [ct] \<rparr> in
         if urlstr @ ''_en'' \<in> set (connectionsurl w2) then w2
         else
           (let w3 = connect (Conn_blk devs cleartextDeviceChanged urlstr) w2;
                w4 = connect (Conn_blk ct idLabelChanged urlstr) w3;
                w5 = connect (Conn_blk ct mountPointsChanged urlstr) w4
            in w5\<lparr> connectionsurl := connectionsurl w5 @ [urlstr @ ''_en''] \<rparr>))
      else
        (if urlstr \<in> set (connectionsurl w1) then w1
         else
           (let w3 = connect (Conn_blk devs idLabelChanged urlstr) w1;
                w4 = connect (Conn_blk devs mountPointsChanged urlstr) w3;
                w5 = connect (Conn_blk devs sizeChanged urlstr) w4;
                w6 = connect (Conn_blk devs idTypeChanged urlstr) w5;
                w7 = connect (Conn_blk devs cleartextDeviceChanged urlstr) w6
            in w7\<lparr> connectionsurl := connectionsurl w7 @ [urlstr] \<rparr>)))"

definition start_device ::
    "bool \<Rightarrow> string \<times> DBlockDevice \<times> DDiskDevice \<Rightarrow> DFMRootFileWatcherPrivate \<Rightarrow> DFMRootFileWatcherPrivate" where
  \<comment> \<open>one round of the loop over \<open>udisksmgr->blockDevices({})\<close> in \<open>start\<close>\<close>
  "start_device hideLoop d w =
     (case d of (devs, blk, drv) \<Rightarrow>
        let w1 =
          (if \<not> removable drv \<and> mountPoints blk \<noteq> [] then
             (let mp0 = hd (mountPoints blk);
                  mountPoint = (if endsWith mp0 ''/'' then mp0 else mp0 @ ''/'')
              in w\<lparr> hiddenDirs := hiddenDirs w @ [mountPoint @ ''root'', mountPoint @ ''lost+found''] \<rparr>)
           else w)
        in if fst (ignoreBlkDevice hideLoop blk drv) then w1
           else initBlockDevConnections blk devs w1)"

definition start ::
    "(string \<times> DBlockDevice \<times> DDiskDevice) list \<Rightarrow> bool \<Rightarrow> DFMRootFileWatcherPrivate
      \<Rightarrow> bool \<times> DFMRootFileWatcherPrivate" where
  \<comment> \<open>The first argument is what \<open>udisksmgr->blockDevices({})\<close> lists, each device with its
      drive; the second is \<open>GA_HideLoopPartitions\<close>.\<close>
  "start devices hideLoop w =
     (if url_path (fileUrl w) \<noteq> ''/'' \<or> started w then (False, w)
      else
        let w1 = w\<lparr> vfsmgr := True, udisksmgr := Some True \<rparr>;
            w2 = fold connect [Conn_mountAdded, Conn_mountRemoved, Conn_volumeAdded,
                               Conn_blockDeviceAdded, Conn_blockDeviceRemoved] w1;
            w3 = fold (start_device hideLoop) devices w2
        in (True, w3\<lparr> started := True \<rparr>))"

definition stop :: "DFMRootFileWatcherPrivate \<Rightarrow> (bool \<times> DFMRootFileWatcherPrivate) option" where
  \<comment> \<open>\<open>None\<close>: \<open>udisksmgr->setWatchChanges(false)\<close> on a null pointer\<close>
  "stop w =
     (if \<not> started w then Some (False, w)
      else case udisksmgr w of
        None \<Rightarrow> None
      | Some _ \<Rightarrow>
          Some (True, w\<lparr> qt_connections := fold remove1 (connections w) (qt_connections w),
                         connections := [], connectionsurl := [], blkdevs := [],
                         vfsmgr := False, udisksmgr := None, started := False \<rparr>))"

section \<open>Renaming a root entry\<close>

text \<open>
  A \<open>QVariantMap\<close> whose values are strings, and \<open>map.value(key).toString()\<close>, which is
  the empty string for a key that is absent.
\<close>

type_synonym QVariantMap = "string \<rightharpoonup> string"

definition value_toString :: "QVariantMap \<Rightarrow> string \<Rightarrow> string" where
  "value_toString m k = (case m k of None \<Rightarrow> [] | Some v \<Rightarrow> v)"

text \<open>
  Modelled from the spec: the macros \<open>DISKALIAS_GROUP\<close>, \<open>DISKALIAS_ITEMS\<close>,
  \<open>DISKALIAS_ITEM_UUID\<close>, \<open>DISKALIAS_ITEM_NAME\<close> and \<open>DISKALIAS_ITEM_ALIAS\<close> are declared
  outside the sources. The specification gives the schema: a named settings group holding an
  ordered list of records, each with the keys \<open>uuid\<close>, \<open>name\<close> and \<open>alias\<close>.
\<close>

definition DISKALIAS_GROUP :: string where "DISKALIAS_GROUP = ''LocalDiskAlias''"
definition DISKALIAS_ITEMS :: string where "DISKALIAS_ITEMS = ''Items''"
definition DISKALIAS_ITEM_UUID :: string where "DISKALIAS_ITEM_UUID = ''uuid''"
definition DISKALIAS_ITEM_NAME :: string where "DISKALIAS_ITEM_NAME = ''name''"
definition DISKALIAS_ITEM_ALIAS :: string where "DISKALIAS_ITEM_ALIAS = ''alias''"

text \<open>
  The generic settings, as far as the controller uses them: a list of maps under a group
  and a key. \<open>value(group, key).toList()\<close> of a key that is not set is the empty list.
\<close>

type_synonym DFMSettings = "string \<times> string \<rightharpoonup> QVariantMap list"

definition value_toList :: "DFMSettings \<Rightarrow> string \<Rightarrow> string \<Rightarrow> QVariantMap list" where
  "value_toList st g k = (case st (g, k) of None \<Rightarrow> [] | Some l \<Rightarrow> l)"

definition isSpace :: "char \<Rightarrow> bool" where
  \<comment> \<open>\<open>QChar::isSpace()\<close> in the Latin-1 range\<close>
  "isSpace c = (let n = (of_char c :: nat) in n = 32 \<or> (9 \<le> n \<and> n \<le> 13) \<or> n = 133 \<or> n = 160)"

definition trimmed :: "string \<Rightarrow> string" where
  \<comment> \<open>\<open>QString::trimmed()\<close>: whitespace removed from the start and the end\<close>
  "trimmed s = rev (dropWhile isSpace (rev (dropWhile isSpace s)))"

text \<open>What the controller reads from the \<open>DFMRootFileInfo\<close> of the entry.\<close>

record DFMRootFileInfo =
  canRename :: bool
  canSetAlias :: bool
  getUUID :: string
  udisksDisplayName :: string
  info_fileUrl :: QUrl
  udisksblk :: string

fun alias_loop :: "string \<Rightarrow> string \<Rightarrow> string \<Rightarrow> QVariantMap list \<Rightarrow> QVariantMap list \<times> bool" where
  \<comment> \<open>The \<open>for\<close> loop of \<open>setLocalDiskAlias\<close>, which stops at the first record with the
      UUID: the list after the loop and the flag \<open>exists\<close>.\<close>
  "alias_loop uuid dispalyAlias displayName [] = ([], False)"
| "alias_loop uuid dispalyAlias displayName (m # ms) =
     (if value_toString m DISKALIAS_ITEM_UUID = uuid then
        (if dispalyAlias = [] then (ms, True)
         else (m(DISKALIAS_ITEM_NAME \<mapsto> displayName, DISKALIAS_ITEM_ALIAS \<mapsto> dispalyAlias) # ms, True))
      else
        (case alias_loop uuid dispalyAlias displayName ms of (ms', e) \<Rightarrow> (m # ms', e)))"

text \<open>A call of \<open>DAbstractFileWatcher::ghostSignal(target, signal, url)\<close>.\<close>

type_synonym ghostSignal = "DUrl_ctor \<times> SignalType1 \<times> QUrl"

definition setLocalDiskAlias ::
    "DFMSettings \<Rightarrow> DFMRootFileInfo option \<Rightarrow> string \<Rightarrow> bool \<times> DFMSettings \<times> ghostSignal list" where
  \<comment> \<open>The info is \<open>None\<close> for a null pointer. The result is the returned boolean, the
      settings and the ghost signals sent.\<close>
  "setLocalDiskAlias st fi alias =
     (case fi of
        None \<Rightarrow> (False, st, [])
      | Some fi \<Rightarrow>
          if \<not> canRename fi \<or> getUUID fi = [] then (False, st, [])
          else
            let uuid = getUUID fi;
                dispalyAlias = trimmed alias;
                displayName = udisksDisplayName fi;
                list = value_toList st DISKALIAS_GROUP DISKALIAS_ITEMS;
                (list1, exists) = alias_loop uuid dispalyAlias displayName list;
                list2 =
                  (if \<not> exists \<and> dispalyAlias \<noteq> [] \<and> uuid \<noteq> [] then
                     list1 @ [[DISKALIAS_ITEM_UUID \<mapsto> uuid, DISKALIAS_ITEM_NAME \<mapsto> displayName,
                               DISKALIAS_ITEM_ALIAS \<mapsto> dispalyAlias]]
                   else list1)
            in (True, st((DISKALIAS_GROUP, DISKALIAS_ITEMS) \<mapsto> list2),
                [(DUrl_string DFMROOT_ROOT, fileAttributeChanged, info_fileUrl fi)]))"

text \<open>
  The type of a \<open>QDBusError\<close>, the calls the controller makes on the block device, and the
  ways \<open>renameFile\<close> ends: it returns, or its \<open>Q_ASSERT\<close> on the block device fails.
\<close>

datatype QDBusError_type = NoError | Other_error nat

datatype blk_call = Call_unmount | Call_setLabel string

datatype rename_end = Returned bool | Assert_failed

record rename_result =
  rr_end :: rename_end
  rr_settings :: DFMSettings
  rr_ghost :: "ghostSignal list"
  rr_calls :: "blk_call list"

definition renameFile ::
    "DFMSettings \<Rightarrow> DFMRootFileInfo \<Rightarrow> string \<Rightarrow> string \<Rightarrow> string list
      \<Rightarrow> QDBusError_type \<Rightarrow> QDBusError_type \<Rightarrow> rename_result" where
  \<comment> \<open>\<open>fi\<close> is the info of \<open>event->fromUrl()\<close>, \<open>toPath\<close> is \<open>event->toUrl().path()\<close>.
      \<open>blkPath\<close> and \<open>mps\<close> are \<open>path()\<close> and \<open>mountPoints()\<close> of the block device created for
      \<open>udisksblk\<close>; \<open>unmountErr\<close> and \<open>setLabelErr\<close> are the \<open>lastError().type()\<close> that the
      device reports after \<open>unmount\<close> and after \<open>setLabel\<close>.\<close>
  "renameFile st fi toPath blkPath mps unmountErr setLabelErr =
     (if \<not> canRename fi then
        \<lparr> rr_end = Returned False, rr_settings = st, rr_ghost = [], rr_calls = [] \<rparr>
      else if canSetAlias fi then
        (case setLocalDiskAlias st (Some fi) toPath of (r, st', g) \<Rightarrow>
           \<lparr> rr_end = Returned r, rr_settings = st', rr_ghost = g, rr_calls = [] \<rparr>)
      else if \<not> length blkPath > 0 then
        \<lparr> rr_end = Assert_failed, rr_settings = st, rr_ghost = [], rr_calls = [] \<rparr>
      else
        let curName = udisksDisplayName fi; destName = toPath in
        if curName = destName then
          \<lparr> rr_end = Returned True, rr_settings = st, rr_ghost = [], rr_calls = [] \<rparr>
        else if length mps > 0 then
          (if unmountErr \<noteq> NoError then
             \<lparr> rr_end = Returned False, rr_settings = st, rr_ghost = [], rr_calls = [Call_unmount] \<rparr>
           else
             \<lparr> rr_end = Returned (setLabelErr = NoError), rr_settings = st, rr_ghost = [],
               rr_calls = [Call_unmount, Call_setLabel destName] \<rparr>)
        else
          \<lparr> rr_end = Returned (setLabelErr = NoError), rr_settings = st, rr_ghost = [],
            rr_calls = [Call_setLabel destName] \<rparr>)"

text \<open>An alias list with one record, and an aliasable entry for its UUID.\<close>

definition st_one_alias :: DFMSettings where
  "st_one_alias = [(DISKALIAS_GROUP, DISKALIAS_ITEMS) \<mapsto>
      [[DISKALIAS_ITEM_UUID \<mapsto> ''1234-ABCD'', DISKALIAS_ITEM_NAME \<mapsto> ''KEY'',
        DISKALIAS_ITEM_ALIAS \<mapsto> ''Backup'']]]"

definition fi_sdb1 :: DFMRootFileInfo where
  "fi_sdb1 = \<lparr> canRename = True, canSetAlias = True, getUUID = ''1234-ABCD'',
      udisksDisplayName = ''KEY'',
      info_fileUrl = \<lparr> url_scheme = ''dfmroot'', url_path = ''/sdb1.localdisk'' \<rparr>,
      udisksblk = ''/org/freedesktop/UDisks2/block_devices/sdb1'' \<rparr>"

text \<open>An entry for a disk label that cannot take an alias.\<close>

definition fi_label :: DFMRootFileInfo where
  "fi_label = \<lparr> canRename = True, canSetAlias = False, getUUID = ''1234-ABCD'',
      udisksDisplayName = ''KEY'',
      info_fileUrl = \<lparr> url_scheme = ''dfmroot'', url_path = ''/sdb1.localdisk'' \<rparr>,
      udisksblk = ''/org/freedesktop/UDisks2/block_devices/sdb1'' \<rparr>"

text \<open>The same entry when it cannot be renamed.\<close>

definition fi_locked :: DFMRootFileInfo where
  "fi_locked = fi_label \<lparr> canRename := False \<rparr>"

section \<open>Enumerating the root: \<open>getChildren\<close>\<close>

definition unreserved :: "char \<Rightarrow> bool" where
  \<comment> \<open>the characters that \<open>QUrl::toPercentEncoding\<close> leaves as they are: letters, digits
      and \<open>-._~\<close>\<close>
  "unreserved c =
     (let n = (of_char c :: nat) in
      (48 \<le> n \<and> n \<le> 57) \<or> (65 \<le> n \<and> n \<le> 90) \<or> (97 \<le> n \<and> n \<le> 122)
      \<or> c = CHR ''-'' \<or> c = CHR ''.'' \<or> c = CHR ''_'' \<or> c = CHR ''~'')"

definition hex_digit :: "nat \<Rightarrow> char" where
  "hex_digit n = ''0123456789ABCDEF'' ! (n mod 16)"

definition percent_encode_char :: "char \<Rightarrow> string" where
  "percent_encode_char c =
     (if unreserved c then [c]
      else [CHR ''%'', hex_digit ((of_char c :: nat) div 16), hex_digit ((of_char c :: nat) mod 16)])"

definition toPercentEncoding :: "string \<Rightarrow> string" where
  \<comment> \<open>\<open>QUrl::toPercentEncoding(s)\<close>, which encodes the UTF-8 bytes of the string. A char of
      the model is one byte, so this is the code's result for ASCII strings.\<close>
  "toPercentEncoding s = concat (map percent_encode_char s)"

definition uri_scheme :: "string \<Rightarrow> string" where
  \<comment> \<open>\<open>DUrl(uri).scheme()\<close> for a URI that GIO hands out: what stands before the first
      colon, nothing when there is no colon\<close>
  "uri_scheme u = (if CHR '':'' \<in> set u then takeWhile (\<lambda>c. c \<noteq> CHR '':'') u else [])"

definition auto_mount_monitor :: "string \<Rightarrow> bool" where
  \<comment> \<open>\<open>name.contains(QRegularExpression("(MTP|GPhoto2|Afc)$"))\<close>; the dollar also matches
      before a final newline\<close>
  "auto_mount_monitor name =
     (\<exists>x \<in> {''MTP'', ''GPhoto2'', ''Afc''}. endsWith name x \<or> endsWith name (x @ [CHR 0x0A]))"

text \<open>
  Modelled from the spec: the macros \<open>REMOTE_KEY\<close>, \<open>REMOTE_PROTOCOL\<close>, \<open>REMOTE_HOST\<close> and
  \<open>REMOTE_SHARE\<close> are declared outside the sources. The specification gives the fields of
  a stashed record as \<open>protocol\<close>, \<open>host\<close> and \<open>share\<close>; the record is found under its key.
\<close>

definition REMOTE_KEY :: string where "REMOTE_KEY = ''key''"
definition REMOTE_PROTOCOL :: string where "REMOTE_PROTOCOL = ''protocol''"
definition REMOTE_HOST :: string where "REMOTE_HOST = ''host''"
definition REMOTE_SHARE :: string where "REMOTE_SHARE = ''share''"

record DGioVolume =
  volumeMonitorName :: string
  vol_getMount :: bool

record DGioFile =
  uri :: string
  file_path :: string

text \<open>
  A mount of GIO: the monitor name of its volume (\<open>None\<close> without a volume), its class
  and its root file (\<open>None\<close> for a null pointer).
\<close>

record DGioMount =
  mnt_volume :: "string option"
  mountClass :: string
  getRootFile :: "DGioFile option"

text \<open>
  What \<open>getChildren\<close> reads: the user directories that exist (by name), the macro
  \<open>DTK_POLICY_SUPPORT\<close>, the group policy \<open>DISK_HIDDEN\<close> (\<open>None\<close> when the key is not
  contained), the block devices with their drives, whether the \<open>UOSICON\<close> directory of a
  mount point exists, three generic attributes, the volumes and mounts of GIO, the device
  listener's \<open>isFromNativeBlockDev\<close>, whether the info of a mount address exists (by its
  path), the stashed remote mounts and the SMB integration mode.
\<close>

record backend =
  userdir_exists :: "string \<Rightarrow> bool"
  DTK_POLICY_SUPPORT :: bool
  DISK_HIDDEN :: "string list option"
  blockDevices :: "(string \<times> DBlockDevice \<times> DDiskDevice) list"
  UOSICON_exists :: "string \<Rightarrow> bool"
  GA_HideLoopPartitions :: bool
  GA_HiddenSystemPartition :: bool
  GA_AlwaysShowOfflineRemoteConnections :: bool
  getVolumes :: "DGioVolume list"
  getMounts :: "DGioMount list"
  isFromNativeBlockDev :: "string \<Rightarrow> bool"
  gvfsmp_exists :: "string \<Rightarrow> bool"
  remoteMounts :: "QVariantMap list"
  isIntegrationMode :: bool

record DFMGetChildrensEvent =
  ev_url :: QUrl
  canconst :: bool

text \<open>
  What \<open>getChildren\<close> does to its surroundings, in order: the queries to the group policy,
  to the disk manager, to GIO and to the stash, and the calls that change something
  (loading a disk info file, mounting a volume, writing the generic attribute
  \<open>GA_HiddenSystemPartition\<close>). Reading a generic attribute or a property of one device or
  mount is not recorded; these are fields of the backend.
\<close>

datatype access =
    Query_GroupPolicy
  | Query_blockDevices
  | LoadDiskInfo string
  | Query_getVolumes
  | Volume_mount string
  | Query_getMounts
  | Query_remoteMounts
  | Set_GA_HiddenSystemPartition bool

record children =
  gc_ret :: "DUrl_ctor list"
  gc_log :: "access list"

definition udir :: "string list" where
  "udir = [''desktop'', ''videos'', ''music'', ''pictures'', ''documents'', ''downloads'']"

definition reloadBlkName :: "backend \<Rightarrow> DBlockDevice \<Rightarrow> access list" where
  "reloadBlkName env blk =
     (case mountPoints blk of
        [] \<Rightarrow> []
      | mp # _ \<Rightarrow>
          let mpPath = (if mp = [] \<or> last mp = CHR ''/'' then mp else mp @ ''/'') in
          if UOSICON_exists env (mpPath @ ''UOSICON'') then [LoadDiskInfo (mpPath @ ''UOSICON'')]
          else [])"

definition blk_step ::
    "backend \<Rightarrow> bool \<Rightarrow> string list \<Rightarrow> string \<times> DBlockDevice \<times> DDiskDevice
      \<Rightarrow> DUrl_ctor list \<times> string list \<times> access list \<Rightarrow> DUrl_ctor list \<times> string list \<times> access list" where
  \<comment> \<open>One round of the loop over the block devices. The state is \<open>ret\<close>,
      \<open>hintSystemDisks\<close> and the accesses so far.\<close>
  "blk_step env hasSetDiskPolicy diskPolicyList d acc =
     (case d of (blks, blk, drv) \<Rightarrow>
      case acc of (ret, hintSystemDisks, log) \<Rightarrow>
        if fst (ignoreBlkDevice (GA_HideLoopPartitions env) blk drv) then acc
        else
          let log1 = log @ reloadBlkName env blk;
              fp = DUrl_string (DFMROOT_ROOT @ mid (device blk) (length ''/dev/'') @ ''.'' @ SUFFIX_UDISKS)
          in
          if DTK_POLICY_SUPPORT env then
            (if hasSetDiskPolicy \<and> hintSystem blk \<and> idUUID blk \<in> set diskPolicyList
             then (ret, hintSystemDisks, log1)
             else
               let hsd1 = (if hintSystem blk then hintSystemDisks @ [idUUID blk] else hintSystemDisks) in
               if \<not> hasSetDiskPolicy \<and> GA_HiddenSystemPartition env \<and> hintSystem blk
               then (ret, hsd1, log1)
               else (ret @ [fp], hsd1, log1))
          else
            (if GA_HiddenSystemPartition env \<and> hintSystem blk then (ret, hintSystemDisks, log1)
             else (ret @ [fp], hintSystemDisks, log1)))"

definition volume_step :: "DGioVolume \<Rightarrow> access list \<Rightarrow> access list" where
  "volume_step gvfsvol log =
     (if auto_mount_monitor (volumeMonitorName gvfsvol) \<and> \<not> vol_getMount gvfsvol
      then log @ [Volume_mount (volumeMonitorName gvfsvol)] else log)"

definition gvfs_key :: "string \<Rightarrow> string" where
  \<comment> \<open>\<open>"/" + QUrl::toPercentEncoding(rootFile->path()) + "." SUFFIX_GVFSMP\<close>\<close>
  "gvfs_key p = ''/'' @ toPercentEncoding p @ ''.'' @ SUFFIX_GVFSMP"

definition mount_skipped :: "backend \<Rightarrow> DGioMount \<Rightarrow> bool" where
  \<comment> \<open>the four tests of the loop over the mounts that end in \<open>continue\<close> before the
      address is built\<close>
  "mount_skipped env gvfsmp =
     ((case mnt_volume gvfsmp of None \<Rightarrow> False | Some name \<Rightarrow> endsWith name ''UDisks2'')
      \<or> mountClass gvfsmp = ''GUnixMount''
      \<or> (case getRootFile gvfsmp of
            None \<Rightarrow> True
          | Some rootFile \<Rightarrow>
              uri_scheme (uri rootFile) = BURN_SCHEME
              \<or> (startsWith (uri rootFile) ''file:///media/''
                  \<and> isFromNativeBlockDev env (file_path rootFile))))"

definition mount_step ::
    "backend \<Rightarrow> DGioMount \<Rightarrow> DUrl_ctor list \<times> string list \<Rightarrow> DUrl_ctor list \<times> string list" where
  \<comment> \<open>One round of the loop over the mounts. The state is \<open>ret\<close> and \<open>urllist\<close>.\<close>
  "mount_step env gvfsmp acc =
     (case acc of (ret, urllist) \<Rightarrow>
        if mount_skipped env gvfsmp then acc
        else
          case getRootFile gvfsmp of
            None \<Rightarrow> acc
          | Some rootFile \<Rightarrow>
              let key = gvfs_key (file_path rootFile) in
              if key \<in> set urllist then acc
              else ((if gvfsmp_exists env key then ret @ [DUrl_scheme_path DFMROOT_SCHEME key] else ret),
                    urllist @ [key]))"

definition stash_step :: "backend \<Rightarrow> string list \<Rightarrow> QVariantMap \<Rightarrow> DUrl_ctor list \<Rightarrow> DUrl_ctor list" where
  \<comment> \<open>One round of the loop over the stashed mounts. The chain
      \<open>QString("%1://%2/%3").arg(protocol).arg(host).arg(share)\<close> is written as a
      concatenation, which is its result when protocol and host hold no place marker
      (a percent sign followed by a digit).\<close>
  "stash_step env urllist mount ret =
     (if mount REMOTE_KEY = None then ret
      else
        let key = value_toString mount REMOTE_KEY @ ''.'' @ SUFFIX_GVFSMP;
            encodedKey = ''/'' @ toPercentEncoding key
        in
        if encodedKey \<in> set urllist then ret
        else if \<not> (mount REMOTE_PROTOCOL \<noteq> None \<and> mount REMOTE_HOST \<noteq> None) then ret
        else
          let protocol = value_toString mount REMOTE_PROTOCOL;
              host = value_toString mount REMOTE_HOST;
              share = value_toString mount REMOTE_SHARE
          in
          if protocol = [] \<or> host = [] then ret
          else if \<not> isIntegrationMode env then
            ret @ [DUrl_fromPercentEncoding
                     (DFMROOT_ROOT @ protocol @ ''://'' @ host @ ''/'' @ share @ ''.'' @ SUFFIX_STASHED_REMOTE)]
          else ret)"

definition getChildren :: "backend \<Rightarrow> DFMGetChildrensEvent \<Rightarrow> children" where
  "getChildren env event =
     (if url_scheme (ev_url event) \<noteq> DFMROOT_SCHEME \<or> url_path (ev_url event) \<noteq> ''/''
      then \<lparr> gc_ret = [], gc_log = [] \<rparr>
      else
        let ret0 = map (\<lambda>d. DUrl_string (DFMROOT_ROOT @ d @ ''.'' @ SUFFIX_USRDIR))
                     (filter (userdir_exists env) udir);
            hasSetDiskPolicy = (DISK_HIDDEN env \<noteq> None);
            diskPolicyList = (case DISK_HIDDEN env of None \<Rightarrow> [] | Some l \<Rightarrow> l);
            log0 = (if DTK_POLICY_SUPPORT env then [Query_GroupPolicy] else []) @ [Query_blockDevices];
            (ret1, hintSystemDisks, log1) =
               fold (blk_step env hasSetDiskPolicy diskPolicyList) (blockDevices env) (ret0, [], log0);
            log2 = fold volume_step (getVolumes env) (log1 @ [Query_getVolumes])
        in
        if canconst event then \<lparr> gc_ret = ret1, gc_log = log2 \<rparr>
        else
          let (ret2, urllist) = fold (mount_step env) (getMounts env) (ret1, []);
              log3 = log2 @ [Query_getMounts];
              ret3 = (if GA_AlwaysShowOfflineRemoteConnections env
                      then fold (stash_step env urllist) (remoteMounts env) ret2 else ret2);
              log4 = (if GA_AlwaysShowOfflineRemoteConnections env then log3 @ [Query_remoteMounts] else log3)
          in
          if DTK_POLICY_SUPPORT env \<and> hasSetDiskPolicy then
            (if diskPolicyList = [] then
               \<lparr> gc_ret = ret3, gc_log = log4 @ [Set_GA_HiddenSystemPartition False] \<rparr>
             else
               \<lparr> gc_ret = ret3,
                 gc_log = log4 @ [Set_GA_HiddenSystemPartition (list_all (\<lambda>blk. blk \<in> set diskPolicyList) hintSystemDisks)] \<rparr>)
          else \<lparr> gc_ret = ret3, gc_log = log4 \<rparr>)"

text \<open>
  A backend with the mounted flash drive, one SMB share that is mounted and one that is
  only stashed, with offline connections shown.
\<close>

definition smb_live :: DGioMount where
  "smb_live = \<lparr> mnt_volume = None, mountClass = ''GDaemonMount'',
      getRootFile = Some \<lparr> uri = ''smb://nas/media/'', file_path = ''/run/gvfs/smb'' \<rparr> \<rparr>"

definition stash_live :: QVariantMap where
  "stash_live = [REMOTE_KEY \<mapsto> ''/run/gvfs/smb'', REMOTE_PROTOCOL \<mapsto> ''smb'',
      REMOTE_HOST \<mapsto> ''nas'', REMOTE_SHARE \<mapsto> ''media'']"

definition stash_offline :: QVariantMap where
  "stash_offline = [REMOTE_KEY \<mapsto> ''/run/gvfs/ftp'', REMOTE_PROTOCOL \<mapsto> ''ftp'',
      REMOTE_HOST \<mapsto> ''old'']"

definition env_example :: backend where
  "env_example = \<lparr> userdir_exists = (\<lambda>d. d = ''desktop''), DTK_POLICY_SUPPORT = False,
      DISK_HIDDEN = None, blockDevices = [dev_sdb1], UOSICON_exists = (\<lambda>p. False),
      GA_HideLoopPartitions = False, GA_HiddenSystemPartition = False,
      GA_AlwaysShowOfflineRemoteConnections = True, getVolumes = [], getMounts = [smb_live],
      isFromNativeBlockDev = (\<lambda>p. False), gvfsmp_exists = (\<lambda>p. True),
      remoteMounts = [stash_live, stash_offline], isIntegrationMode = False \<rparr>"

definition root_event :: "bool \<Rightarrow> DFMGetChildrensEvent" where
  "root_event c = \<lparr> ev_url = \<lparr> url_scheme = DFMROOT_SCHEME, url_path = ''/'' \<rparr>, canconst = c \<rparr>"

section \<open>Properties of the visibility decision\<close>

lemma contains_str_iff: "contains_str s n \<longleftrightarrow> (\<exists>p q. s = p @ n @ q)"
proof (induction s)
  case Nil show ?case by simp
next
  case (Cons c cs)
  show ?case
  proof
    assume "contains_str (c # cs) n"
    then consider "startsWith (c # cs) n" | "contains_str cs n" by auto
    then show "\<exists>p q. c # cs = p @ n @ q"
    proof cases
      case 1
      then have "c # cs = [] @ n @ drop (length n) (c # cs)"
        unfolding startsWith_def by (metis append_Nil append_take_drop_id)
      then show ?thesis by blast
    next
      case 2
      with Cons obtain p q where "cs = p @ n @ q" by blast
      then have "c # cs = (c # p) @ n @ q" by simp
      then show ?thesis by blast
    qed
  next
    assume "\<exists>p q. c # cs = p @ n @ q"
    then obtain p q where pq: "c # cs = p @ n @ q" by blast
    show "contains_str (c # cs) n"
    proof (cases p)
      case Nil
      with pq have "startsWith (c # cs) n" by (simp add: startsWith_def)
      then show ?thesis by simp
    next
      case (Cons a p')
      with pq have "cs = p' @ n @ q" by simp
      with Cons.IH show ?thesis by auto
    qed
  qed
qed

lemma contains_str_sep:
  assumes "c \<notin> set n" "n \<noteq> []"
  shows "contains_str (a @ [c] @ b) n \<longleftrightarrow> contains_str a n \<or> contains_str b n"
proof
  assume "contains_str (a @ [c] @ b) n"
  then obtain p q where pq: "a @ [c] @ b = p @ n @ q" unfolding contains_str_iff by blast
  then have "a @ c # b = p @ (n @ q)" by simp
  then consider us where "a = p @ us" "us @ c # b = n @ q" | us where "a @ us = p" "c # b = us @ n @ q"
    by (auto simp: append_eq_append_conv2)
  then show "contains_str a n \<or> contains_str b n"
  proof cases
    case 1
    from 1(2) consider vs where "us = n @ vs" | vs where "us @ vs = n" "c # b = vs @ q" "vs \<noteq> []"
      by (auto simp: append_eq_append_conv2) (metis append.right_neutral)
    then show ?thesis
    proof cases
      case 1
      with \<open>a = p @ us\<close> show ?thesis unfolding contains_str_iff by auto
    next
      case 2
      then have "c \<in> set n" by (cases vs) auto
      with assms show ?thesis by simp
    qed
  next
    case 2
    show ?thesis
    proof (cases us)
      case Nil
      with 2 have "c # b = n @ q" by simp
      with assms have False by (cases n) auto
      then show ?thesis ..
    next
      case (Cons u us')
      with 2 have "b = us' @ n @ q" by simp
      then show ?thesis unfolding contains_str_iff by blast
    qed
  qed
next
  assume "contains_str a n \<or> contains_str b n"
  then show "contains_str (a @ [c] @ b) n"
    unfolding contains_str_iff
  proof
    assume "\<exists>p q. a = p @ n @ q"
    then obtain p q where "a = p @ n @ q" by blast
    then have "a @ [c] @ b = p @ n @ (q @ [c] @ b)" by simp
    then show "\<exists>p q. a @ [c] @ b = p @ n @ q" by blast
  next
    assume "\<exists>p q. b = p @ n @ q"
    then obtain p q where "b = p @ n @ q" by blast
    then have "a @ [c] @ b = (a @ [c] @ p) @ n @ q" by simp
    then show "\<exists>p q. a @ [c] @ b = p @ n @ q" by blast
  qed
qed

lemma contains_join:
  assumes "c \<notin> set n" "n \<noteq> []"
  shows "contains_str (join_str xs [c]) n \<longleftrightarrow> (\<exists>m \<in> set xs. contains_str m n)"
proof (induction xs "[c]" rule: join_str.induct)
  case 1
  from assms show ?case by simp
next
  case (2 x)
  show ?case by simp
next
  case (3 x y zs)
  have "contains_str (join_str (x # y # zs) [c]) n
      = contains_str (x @ [c] @ join_str (y # zs) [c]) n" by simp
  also have "\<dots> = (contains_str x n \<or> contains_str (join_str (y # zs) [c]) n)"
    using assms by (rule contains_str_sep)
  finally show ?case using 3 by auto
qed

lemma first_match_chain:
  "fst (if a then (True, x1)
     else if b then (False, x2)
     else if c then (False, x3)
     else if p \<and> t then (True, x4)
     else if f then
       (if l then (hl, x5)
        else if k then (True, x6)
        else (False, x7))
     else
       (if pt then (True, x8)
        else if \<not> r then (True, x9)
        else if sz then (True, x10)
        else (False, x11)))
   = (\<not> first_match [(a, False), (b, True), (c, True), (p \<and> t, False), (f \<and> l, \<not> hl),
        (f \<and> k, False), (f, True), (pt, False), (\<not> r, False), (sz, False)] True)"
  by (cases a; cases b; cases c; cases "p \<and> t"; cases f; auto)

text \<open>
  Claim C1. The decision of \<open>ignoreBlkDevice\<close> is a function of the block device, its drive
  and the hide-loop switch, and it is the first-match evaluation of the ordered rules:
  ignore hint (hidden), optical drive (visible), encrypted shell (visible), partition of an
  extended type (hidden), filesystem on a loop device (visible unless the switch hides
  loops), filesystem of a cleartext device (hidden), any other filesystem (visible),
  partition table (hidden), drive not removable (hidden), size under 1024 (hidden), and
  visible when none applies.
\<close>

theorem ignoreBlkDevice_first_match:
  "fst (ignoreBlkDevice hideLoop blk drv) = (\<not> visible_spec hideLoop blk drv)"
proof -
  have opt: "contains_str (join_str (mediaCompatibility drv) '','') ''optical''
     = (\<exists>m \<in> set (mediaCompatibility drv). contains_str m ''optical'')"
    by (rule contains_join) simp_all
  have pt: "(partition blk \<in> Some ` {Win95_Extended_LBA, Linux_extended,
          DRDOS_sec_extend, Multiuser_DOS_extend, Extended}) = hidden_partition_type (partition blk)"
    by (cases "partition blk" rule: hidden_partition_type.cases) auto
  show ?thesis
    unfolding ignoreBlkDevice_def visible_spec_def visibility_rules_def opt pt
    by (rule first_match_chain)
qed

theorem ignoreBlkDevice_first_match_witness:
  "fst (ignoreBlkDevice False blk_512 drv_fixed) = (\<not> visible_spec False blk_512 drv_fixed)
   \<and> fst (ignoreBlkDevice False blk_512 drv_fixed)
   \<and> \<not> fst (ignoreBlkDevice False (fst (snd dev_sdb1)) (snd (snd dev_sdb1)))
   \<and> visible_spec False (fst (snd dev_sdb1)) (snd (snd dev_sdb1))"
  using ignoreBlkDevice_first_match [of False blk_512 drv_fixed]
    ignoreBlkDevice_first_match [of False "fst (snd dev_sdb1)" "snd (snd dev_sdb1)"]
  by (simp add: ignoreBlkDevice_def blk_512_def drv_fixed_def dev_sdb1_def startsWith_def)

text \<open>
  Claim C8, as amended. A device on a non-removable drive with no filesystem, no partition
  table, no ignore hint, no optical drive and no encryption, of 512 bytes, is hidden; the
  rule that decides is the partition-type rule when it carries a partition of an extended
  type, and the rule for non-removable drives otherwise. The size rule is not reached.
\<close>

theorem ignoreBlkDevice_fixed_512:
  assumes "\<not> removable drv" "\<not> hasFileSystem blk" "\<not> hasPartitionTable blk"
    and "\<not> hintIgnore blk"
    and "\<not> contains_str (join_str (mediaCompatibility drv) '','') ''optical''"
    and "\<not> isEncrypted blk" "blk_size blk = 512"
  shows "ignoreBlkDevice hideLoop blk drv =
     (True, Some (if hasPartition blk \<and> hidden_partition_type (partition blk)
                  then Ignored_by_Partition_type else Ignored_by_Unremovable_internal_disk))"
  using assms by (simp add: ignoreBlkDevice_def)

theorem ignoreBlkDevice_fixed_512_witness:
  "\<not> removable drv_fixed \<and> \<not> hasFileSystem blk_512 \<and> \<not> hasPartitionTable blk_512
   \<and> \<not> hintIgnore blk_512
   \<and> \<not> contains_str (join_str (mediaCompatibility drv_fixed) '','') ''optical''
   \<and> \<not> isEncrypted blk_512 \<and> blk_size blk_512 = 512
   \<and> ignoreBlkDevice False blk_512 drv_fixed = (True, Some Ignored_by_Unremovable_internal_disk)"
proof -
  have h: "\<not> removable drv_fixed" "\<not> hasFileSystem blk_512" "\<not> hasPartitionTable blk_512"
    "\<not> hintIgnore blk_512"
    "\<not> contains_str (join_str (mediaCompatibility drv_fixed) '','') ''optical''"
    "\<not> isEncrypted blk_512" "blk_size blk_512 = 512"
    by (simp_all add: blk_512_def drv_fixed_def)
  from ignoreBlkDevice_fixed_512 [OF h, of False] h show ?thesis
    by (simp add: blk_512_def)
qed

text \<open>
  Claim C8 as stated fails: for the 512-byte partition on the fixed drive the line logged
  is not the one of the size rule.
\<close>

theorem size_rule_counterexample:
  "\<not> removable drv_fixed \<and> \<not> hasFileSystem blk_512 \<and> \<not> hasPartitionTable blk_512
   \<and> \<not> hintIgnore blk_512
   \<and> \<not> contains_str (join_str (mediaCompatibility drv_fixed) '','') ''optical''
   \<and> \<not> isEncrypted blk_512 \<and> blk_size blk_512 = 512
   \<and> snd (ignoreBlkDevice False blk_512 drv_fixed) \<noteq> Some Ignored_by_Size_lt_1024"
  by (simp add: ignoreBlkDevice_def blk_512_def drv_fixed_def)

section \<open>Properties of the root watcher\<close>

text \<open>
  Claim C4. For a path that starts with \<open>/dev/loop\<close>, \<open>handleGhostSignal\<close> answers a
  \<open>fileDeleted\<close> request with \<open>true\<close> and one \<open>fileDeleted\<close> signal for the address of the
  loop device, and a \<open>subfileCreated\<close> request with \<open>true\<close> and no signal; for any other
  path or signal it answers \<open>false\<close> and emits nothing.
\<close>

theorem handleGhostSignal_cases:
  "(startsWith (url_path url) ''/dev/loop'' \<and> signal = fileDeleted \<longrightarrow>
      handleGhostSignal target signal url =
        (True, [(fileDeleted, DUrl_string (DFMROOT_ROOT @ drop 5 (url_path url) @ ''.'' @ SUFFIX_UDISKS))]))
   \<and> (startsWith (url_path url) ''/dev/loop'' \<and> signal = subfileCreated \<longrightarrow>
      handleGhostSignal target signal url = (True, []))
   \<and> (\<not> startsWith (url_path url) ''/dev/loop'' \<or> signal \<notin> {fileDeleted, subfileCreated} \<longrightarrow>
      handleGhostSignal target signal url = (False, []))"
  by (auto simp: handleGhostSignal_def mid_def Let_def eval_nat_numeral)

theorem handleGhostSignal_cases_witness:
  "handleGhostSignal \<lparr>url_scheme = ''dfmroot'', url_path = ''/''\<rparr> fileDeleted \<lparr>url_scheme = ''file'', url_path = ''/dev/loop5''\<rparr>
      = (True, [(fileDeleted, DUrl_string ''dfmroot:///loop5.localdisk'')])
   \<and> handleGhostSignal \<lparr>url_scheme = ''dfmroot'', url_path = ''/''\<rparr> subfileCreated \<lparr>url_scheme = ''file'', url_path = ''/dev/loop5''\<rparr>
      = (True, [])
   \<and> handleGhostSignal \<lparr>url_scheme = ''dfmroot'', url_path = ''/''\<rparr> fileDeleted \<lparr>url_scheme = ''file'', url_path = ''/dev/sda1''\<rparr>
      = (False, [])
   \<and> handleGhostSignal \<lparr>url_scheme = ''dfmroot'', url_path = ''/''\<rparr> fileAttributeChanged \<lparr>url_scheme = ''file'', url_path = ''/dev/loop5''\<rparr>
      = (False, [])"
  using handleGhostSignal_cases [of "\<lparr>url_scheme = ''file'', url_path = ''/dev/loop5''\<rparr>" fileDeleted "\<lparr>url_scheme = ''dfmroot'', url_path = ''/''\<rparr>"]
    handleGhostSignal_cases [of "\<lparr>url_scheme = ''file'', url_path = ''/dev/loop5''\<rparr>" subfileCreated "\<lparr>url_scheme = ''dfmroot'', url_path = ''/''\<rparr>"]
    handleGhostSignal_cases [of "\<lparr>url_scheme = ''file'', url_path = ''/dev/sda1''\<rparr>" fileDeleted "\<lparr>url_scheme = ''dfmroot'', url_path = ''/''\<rparr>"]
    handleGhostSignal_cases [of "\<lparr>url_scheme = ''file'', url_path = ''/dev/loop5''\<rparr>" fileAttributeChanged "\<lparr>url_scheme = ''dfmroot'', url_path = ''/''\<rparr>"]
  by (simp add: startsWith_def DFMROOT_ROOT_def SUFFIX_UDISKS_def)

text \<open>
  Claim C9. The result and the signals of \<open>handleGhostSignal\<close> do not depend on the
  target address.
\<close>

theorem handleGhostSignal_target_independent:
  "handleGhostSignal target1 signal url = handleGhostSignal target2 signal url"
  by (simp add: handleGhostSignal_def)

lemma fold_remove1_self: "fold remove1 xs (xs @ ys) = ys"
  by (induction xs) simp_all

lemma connect_inv: "qt_connections w = connections w \<Longrightarrow> qt_connections (connect c w) = connections (connect c w)"
  by (simp add: connect_def)

lemma connect_fields [simp]:
  "started (connect c w) = started w" "udisksmgr (connect c w) = udisksmgr w"
  "fileUrl (connect c w) = fileUrl w"
  by (simp_all add: connect_def)

lemma init_inv: "qt_connections w = connections w \<Longrightarrow>
   qt_connections (initBlockDevConnections blk devs w) = connections (initBlockDevConnections blk devs w)"
  by (simp add: initBlockDevConnections_def Let_def connect_def)

lemma init_fields [simp]:
  "started (initBlockDevConnections blk devs w) = started w"
  "udisksmgr (initBlockDevConnections blk devs w) = udisksmgr w"
  "fileUrl (initBlockDevConnections blk devs w) = fileUrl w"
  by (simp_all add: initBlockDevConnections_def Let_def)

lemma start_device_inv: "qt_connections w = connections w \<Longrightarrow>
   qt_connections (start_device h d w) = connections (start_device h d w)"
  by (cases d) (simp add: start_device_def Let_def init_inv)

lemma start_device_fields [simp]:
  "started (start_device h d w) = started w"
  "udisksmgr (start_device h d w) = udisksmgr w"
  "fileUrl (start_device h d w) = fileUrl w"
  by (cases d; simp add: start_device_def Let_def)+

lemma fold_start_device:
  "qt_connections w = connections w \<Longrightarrow>
   qt_connections (fold (start_device h) ds w) = connections (fold (start_device h) ds w)"
  "started (fold (start_device h) ds w) = started w"
  "udisksmgr (fold (start_device h) ds w) = udisksmgr w"
  "fileUrl (fold (start_device h) ds w) = fileUrl w"
  by (induction ds arbitrary: w) (simp_all add: start_device_inv)

lemma start_fails: "url_path (fileUrl w) \<noteq> ''/'' \<or> started w \<Longrightarrow> start ds h w = (False, w)"
  by (auto simp: start_def)

lemma start_ok:
  assumes "url_path (fileUrl w) = ''/''" "\<not> started w"
  shows "fst (start ds h w) = True" "started (snd (start ds h w))"
    "udisksmgr (snd (start ds h w)) = Some True"
    "fileUrl (snd (start ds h w)) = fileUrl w"
    "qt_connections w = connections w \<Longrightarrow>
       qt_connections (snd (start ds h w)) = connections (snd (start ds h w))"
  using assms by (simp_all add: start_def Let_def fold_start_device connect_inv)

lemma stop_ok:
  assumes "started w" "udisksmgr w = Some b" "qt_connections w = connections w"
  shows "\<exists>w'. stop w = Some (True, w') \<and> connections w' = [] \<and> qt_connections w' = []
     \<and> connectionsurl w' = [] \<and> blkdevs w' = [] \<and> \<not> vfsmgr w' \<and> udisksmgr w' = None \<and> \<not> started w'
     \<and> stop w' = Some (False, w')"
  using assms fold_remove1_self [of "connections w" "[]"] by (simp add: stop_def)

text \<open>
  Claim C3, as amended. \<open>start\<close> returns \<open>false\<close> and leaves the watcher as it is when the
  path of its address is not \<open>/\<close> or it is started already; the scheme is not looked at.
  On an idle watcher whose path is \<open>/\<close> it returns \<open>true\<close> and marks it started, a second
  \<open>start\<close> returns \<open>false\<close> and changes nothing, and then \<open>stop\<close> returns \<open>true\<close>, detaches
  and clears every connection, and a second \<open>stop\<close> returns \<open>false\<close>.
\<close>

theorem watcher_start_stop:
  "(url_path (fileUrl w) \<noteq> ''/'' \<or> started w \<longrightarrow> start ds h w = (False, w))
   \<and> (url_path (fileUrl w) = ''/'' \<and> \<not> started w \<longrightarrow>
        fst (start ds h w) \<and> started (snd (start ds h w))
        \<and> start ds' h' (snd (start ds h w)) = (False, snd (start ds h w))
        \<and> (qt_connections w = connections w \<longrightarrow>
             (\<exists>w'. stop (snd (start ds h w)) = Some (True, w')
                \<and> connections w' = [] \<and> qt_connections w' = [] \<and> connectionsurl w' = []
                \<and> blkdevs w' = [] \<and> \<not> started w' \<and> stop w' = Some (False, w'))))"
proof (intro conjI impI)
  assume "url_path (fileUrl w) \<noteq> ''/'' \<or> started w"
  then show "start ds h w = (False, w)" by (rule start_fails)
next
  assume a: "url_path (fileUrl w) = ''/'' \<and> \<not> started w"
  then show "fst (start ds h w)" by (simp add: start_ok)
next
  assume a: "url_path (fileUrl w) = ''/'' \<and> \<not> started w"
  then show "started (snd (start ds h w))" by (simp add: start_ok)
next
  assume a: "url_path (fileUrl w) = ''/'' \<and> \<not> started w"
  then have "started (snd (start ds h w))" by (simp add: start_ok)
  then show "start ds' h' (snd (start ds h w)) = (False, snd (start ds h w))"
    by (simp add: start_fails)
next
  assume a: "url_path (fileUrl w) = ''/'' \<and> \<not> started w"
    and q: "qt_connections w = connections w"
  from a have 1: "started (snd (start ds h w))"
    and 2: "udisksmgr (snd (start ds h w)) = Some True" by (simp_all add: start_ok)
  from a q have 3: "qt_connections (snd (start ds h w)) = connections (snd (start ds h w))"
    by (simp add: start_ok)
  from stop_ok [OF 1 2 3]
  show "\<exists>w'. stop (snd (start ds h w)) = Some (True, w')
                \<and> connections w' = [] \<and> qt_connections w' = [] \<and> connectionsurl w' = []
                \<and> blkdevs w' = [] \<and> \<not> started w' \<and> stop w' = Some (False, w')"
    by blast
qed

theorem watcher_start_stop_witness:
  "start [dev_sdb1] False (new_watcher \<lparr>url_scheme = ''dfmroot'', url_path = ''/loop0.localdisk''\<rparr>)
      = (False, new_watcher \<lparr>url_scheme = ''dfmroot'', url_path = ''/loop0.localdisk''\<rparr>)
   \<and> fst (start [dev_sdb1] False (new_watcher \<lparr>url_scheme = ''dfmroot'', url_path = ''/''\<rparr>))
   \<and> length (connections (snd (start [dev_sdb1] False (new_watcher \<lparr>url_scheme = ''dfmroot'', url_path = ''/''\<rparr>)))) = 10
   \<and> (\<exists>w'. stop (snd (start [dev_sdb1] False (new_watcher \<lparr>url_scheme = ''dfmroot'', url_path = ''/''\<rparr>))) = Some (True, w')
         \<and> connections w' = [] \<and> qt_connections w' = [] \<and> stop w' = Some (False, w'))"
proof -
  have c: "length (connections (snd (start [dev_sdb1] False (new_watcher \<lparr>url_scheme = ''dfmroot'', url_path = ''/''\<rparr>)))) = 10"
    by (simp add: start_def new_watcher_def dev_sdb1_def start_device_def ignoreBlkDevice_def
        initBlockDevConnections_def connect_def Let_def startsWith_def)
  have h1: "url_path (fileUrl (new_watcher \<lparr>url_scheme = ''dfmroot'', url_path = ''/loop0.localdisk''\<rparr>)) \<noteq> ''/''
      \<or> started (new_watcher \<lparr>url_scheme = ''dfmroot'', url_path = ''/loop0.localdisk''\<rparr>)"
    by (simp add: new_watcher_def)
  have h2: "url_path (fileUrl (new_watcher \<lparr>url_scheme = ''dfmroot'', url_path = ''/''\<rparr>)) = ''/''
      \<and> \<not> started (new_watcher \<lparr>url_scheme = ''dfmroot'', url_path = ''/''\<rparr>)"
    by (simp add: new_watcher_def)
  have h3: "qt_connections (new_watcher \<lparr>url_scheme = ''dfmroot'', url_path = ''/''\<rparr>)
      = connections (new_watcher \<lparr>url_scheme = ''dfmroot'', url_path = ''/''\<rparr>)"
    by (simp add: new_watcher_def)
  show ?thesis
    using watcher_start_stop [of "new_watcher \<lparr>url_scheme = ''dfmroot'', url_path = ''/loop0.localdisk''\<rparr>" "[dev_sdb1]" False]
      watcher_start_stop [of "new_watcher \<lparr>url_scheme = ''dfmroot'', url_path = ''/''\<rparr>" "[dev_sdb1]" False "[dev_sdb1]" False]
      h1 h2 h3 c
    by blast
qed

text \<open>
  Claim C3 as stated fails: a watcher on \<open>file:/\<close>, which is not the virtual root, starts.
\<close>

theorem start_scheme_counterexample:
  "url_scheme \<lparr>url_scheme = ''file'', url_path = ''/''\<rparr> \<noteq> DFMROOT_SCHEME
   \<and> \<not> started (new_watcher \<lparr>url_scheme = ''file'', url_path = ''/''\<rparr>)
   \<and> fst (start [] False (new_watcher \<lparr>url_scheme = ''file'', url_path = ''/''\<rparr>)) = True
   \<and> started (snd (start [] False (new_watcher \<lparr>url_scheme = ''file'', url_path = ''/''\<rparr>)))"
  by (simp add: DFMROOT_SCHEME_def start_def new_watcher_def Let_def connect_def)

section \<open>Properties of renaming\<close>

lemma alias_loop_eq:
  "alias_loop uuid a name list =
     (let i = length (takeWhile (\<lambda>m. value_toString m DISKALIAS_ITEM_UUID \<noteq> uuid) list) in
      if i < length list then
        (if a = [] then (take i list @ drop (Suc i) list, True)
         else (list[i := (list ! i)(DISKALIAS_ITEM_NAME \<mapsto> name, DISKALIAS_ITEM_ALIAS \<mapsto> a)], True))
      else (list, False))"
  by (induction list) (auto simp: Let_def)

text \<open>
  Claim C5, as amended. For an entry that can be renamed, can take an alias and has a UUID,
  a rename rewrites the alias list: when the new name is empty after trimming, the first
  record with the UUID is taken out (the list stays as it is when there is none); otherwise
  a record with the UUID is overwritten where it stands, with the display name and the
  trimmed new name; otherwise a record is appended. The list is written back under its
  group and key, one attribute-change ghost signal is sent to the root, and the call
  returns \<open>true\<close>.
\<close>

theorem renameFile_alias:
  assumes "canRename fi" "canSetAlias fi" "getUUID fi \<noteq> []"
  shows "renameFile st fi newName blkPath mps unmountErr setLabelErr =
     (let list = value_toList st DISKALIAS_GROUP DISKALIAS_ITEMS;
          a = trimmed newName;
          i = length (takeWhile (\<lambda>m. value_toString m DISKALIAS_ITEM_UUID \<noteq> getUUID fi) list)
      in \<lparr> rr_end = Returned True,
            rr_settings = st((DISKALIAS_GROUP, DISKALIAS_ITEMS) \<mapsto>
              (if i < length list then
                 (if a = [] then take i list @ drop (Suc i) list
                  else list[i := (list ! i)(DISKALIAS_ITEM_NAME \<mapsto> udisksDisplayName fi,
                                            DISKALIAS_ITEM_ALIAS \<mapsto> a)])
               else
                 (if a = [] then list
                  else list @ [[DISKALIAS_ITEM_UUID \<mapsto> getUUID fi,
                                DISKALIAS_ITEM_NAME \<mapsto> udisksDisplayName fi,
                                DISKALIAS_ITEM_ALIAS \<mapsto> a]]))),
            rr_ghost = [(DUrl_string DFMROOT_ROOT, fileAttributeChanged, info_fileUrl fi)],
            rr_calls = [] \<rparr>)"
  using assms
  by (simp add: renameFile_def setLocalDiskAlias_def alias_loop_eq Let_def)

theorem renameFile_alias_witness:
  "canRename fi_sdb1 \<and> canSetAlias fi_sdb1 \<and> getUUID fi_sdb1 \<noteq> []
   \<and> rr_end (renameFile st_one_alias fi_sdb1 '' Data 1  '' [] [] NoError NoError) = Returned True
   \<and> map (\<lambda>m. (m ''uuid'', m ''name'', m ''alias''))
        (value_toList (rr_settings (renameFile st_one_alias fi_sdb1 '' Data 1  '' [] [] NoError NoError))
           DISKALIAS_GROUP DISKALIAS_ITEMS)
      = [(Some ''1234-ABCD'', Some ''KEY'', Some ''Data 1'')]
   \<and> value_toList (rr_settings (renameFile st_one_alias fi_sdb1 [] [] [] NoError NoError))
           DISKALIAS_GROUP DISKALIAS_ITEMS = []
   \<and> map (\<lambda>m. (m ''uuid'', m ''name'', m ''alias''))
        (value_toList (rr_settings (renameFile Map.empty fi_sdb1 ''Data'' [] [] NoError NoError))
           DISKALIAS_GROUP DISKALIAS_ITEMS)
      = [(Some ''1234-ABCD'', Some ''KEY'', Some ''Data'')]"
proof -
  have h: "canRename fi_sdb1" "canSetAlias fi_sdb1" "getUUID fi_sdb1 \<noteq> []"
    by (simp_all add: fi_sdb1_def)
  have t: "trimmed '' Data 1  '' = ''Data 1''" "trimmed [] = []" "trimmed ''Data'' = ''Data''"
    by (simp_all add: trimmed_def isSpace_def)
  show ?thesis
    using h renameFile_alias [OF h, of st_one_alias "'' Data 1  ''" "[]" "[]" NoError NoError]
      renameFile_alias [OF h, of st_one_alias "[]" "[]" "[]" NoError NoError]
      renameFile_alias [OF h, of Map.empty "''Data''" "[]" "[]" NoError NoError]
    by (simp add: t Let_def value_toList_def value_toString_def st_one_alias_def fi_sdb1_def
        DISKALIAS_GROUP_def DISKALIAS_ITEMS_def DISKALIAS_ITEM_UUID_def DISKALIAS_ITEM_NAME_def
        DISKALIAS_ITEM_ALIAS_def)
qed

text \<open>
  Claim C5 as stated fails: a new name of one space is not empty, and the record of the
  UUID is neither overwritten nor appended; the record is deleted, and nothing is appended
  to an empty list.
\<close>

theorem blank_name_counterexample:
  "canRename fi_sdb1 \<and> canSetAlias fi_sdb1 \<and> getUUID fi_sdb1 \<noteq> [] \<and> '' '' \<noteq> []
   \<and> length (value_toList st_one_alias DISKALIAS_GROUP DISKALIAS_ITEMS) = 1
   \<and> value_toList (rr_settings (renameFile st_one_alias fi_sdb1 '' '' [] [] NoError NoError))
        DISKALIAS_GROUP DISKALIAS_ITEMS = []
   \<and> value_toList Map.empty DISKALIAS_GROUP DISKALIAS_ITEMS = []
   \<and> value_toList (rr_settings (renameFile Map.empty fi_sdb1 '' '' [] [] NoError NoError))
        DISKALIAS_GROUP DISKALIAS_ITEMS = []"
  by (simp add: renameFile_def setLocalDiskAlias_def Let_def trimmed_def isSpace_def
      value_toList_def value_toString_def st_one_alias_def fi_sdb1_def
      DISKALIAS_GROUP_def DISKALIAS_ITEMS_def DISKALIAS_ITEM_UUID_def DISKALIAS_ITEM_NAME_def
      DISKALIAS_ITEM_ALIAS_def)

text \<open>
  Claim C6, as amended. An entry that cannot take an alias and cannot be renamed is refused
  with \<open>false\<close> before any call on the device. For one that can be renamed, on a block
  device that the assertion accepts, and a new name other than the current one: with mount
  points one unmount call is made on the device first, whatever their number, and an
  unmount error ends the call with \<open>false\<close> before any label is set; after a successful
  unmount, or with nothing mounted, the label is set, and the call returns \<open>true\<close> exactly
  when setting the label reported no error.
\<close>

theorem renameFile_label:
  assumes "\<not> canSetAlias fi"
  shows "(\<not> canRename fi \<longrightarrow>
            renameFile st fi newName blkPath mps unmountErr setLabelErr =
              \<lparr> rr_end = Returned False, rr_settings = st, rr_ghost = [], rr_calls = [] \<rparr>)
       \<and> (canRename fi \<and> length blkPath > 0 \<and> newName \<noteq> udisksDisplayName fi \<longrightarrow>
            (mps \<noteq> [] \<and> unmountErr \<noteq> NoError \<longrightarrow>
               renameFile st fi newName blkPath mps unmountErr setLabelErr =
                 \<lparr> rr_end = Returned False, rr_settings = st, rr_ghost = [], rr_calls = [Call_unmount] \<rparr>)
          \<and> (mps \<noteq> [] \<and> unmountErr = NoError \<longrightarrow>
               renameFile st fi newName blkPath mps unmountErr setLabelErr =
                 \<lparr> rr_end = Returned (setLabelErr = NoError), rr_settings = st, rr_ghost = [],
                   rr_calls = [Call_unmount, Call_setLabel newName] \<rparr>)
          \<and> (mps = [] \<longrightarrow>
               renameFile st fi newName blkPath mps unmountErr setLabelErr =
                 \<lparr> rr_end = Returned (setLabelErr = NoError), rr_settings = st, rr_ghost = [],
                   rr_calls = [Call_setLabel newName] \<rparr>))"
  using assms by (auto simp: renameFile_def Let_def)

theorem renameFile_label_witness:
  "\<not> canSetAlias fi_label \<and> \<not> canSetAlias fi_locked \<and> \<not> canRename fi_locked
   \<and> canRename fi_label
   \<and> length ''/org/freedesktop/UDisks2/block_devices/sdb1'' > 0 \<and> ''DATA'' \<noteq> udisksDisplayName fi_label
   \<and> renameFile Map.empty fi_locked ''DATA'' ''/org/freedesktop/UDisks2/block_devices/sdb1''
        [''/media/user/KEY''] NoError NoError
      = \<lparr> rr_end = Returned False, rr_settings = Map.empty, rr_ghost = [], rr_calls = [] \<rparr>
   \<and> renameFile Map.empty fi_label ''DATA'' ''/org/freedesktop/UDisks2/block_devices/sdb1''
        [''/media/user/KEY''] (Other_error 1) NoError
      = \<lparr> rr_end = Returned False, rr_settings = Map.empty, rr_ghost = [], rr_calls = [Call_unmount] \<rparr>
   \<and> renameFile Map.empty fi_label ''DATA'' ''/org/freedesktop/UDisks2/block_devices/sdb1''
        [''/media/user/KEY''] NoError NoError
      = \<lparr> rr_end = Returned True, rr_settings = Map.empty, rr_ghost = [],
          rr_calls = [Call_unmount, Call_setLabel ''DATA''] \<rparr>
   \<and> renameFile Map.empty fi_label ''DATA'' ''/org/freedesktop/UDisks2/block_devices/sdb1''
        [] NoError (Other_error 2)
      = \<lparr> rr_end = Returned False, rr_settings = Map.empty, rr_ghost = [],
          rr_calls = [Call_setLabel ''DATA''] \<rparr>"
proof -
  have a: "\<not> canSetAlias fi_label" and b: "\<not> canSetAlias fi_locked"
    by (simp_all add: fi_label_def fi_locked_def)
  have h: "\<not> canRename fi_locked" "canRename fi_label"
    "length ''/org/freedesktop/UDisks2/block_devices/sdb1'' > 0" "''DATA'' \<noteq> udisksDisplayName fi_label"
    by (simp_all add: fi_label_def fi_locked_def)
  show ?thesis
    using a b h
      renameFile_label [where fi = fi_locked and st = Map.empty and newName = "''DATA''"
        and blkPath = "''/org/freedesktop/UDisks2/block_devices/sdb1''"
        and mps = "[''/media/user/KEY'']" and unmountErr = NoError and setLabelErr = NoError]
      renameFile_label [where fi = fi_label and st = Map.empty and newName = "''DATA''"
        and blkPath = "''/org/freedesktop/UDisks2/block_devices/sdb1''"
        and mps = "[''/media/user/KEY'']" and unmountErr = "Other_error 1" and setLabelErr = NoError]
      renameFile_label [where fi = fi_label and st = Map.empty and newName = "''DATA''"
        and blkPath = "''/org/freedesktop/UDisks2/block_devices/sdb1''"
        and mps = "[''/media/user/KEY'']" and unmountErr = NoError and setLabelErr = NoError]
      renameFile_label [where fi = fi_label and st = Map.empty and newName = "''DATA''"
        and blkPath = "''/org/freedesktop/UDisks2/block_devices/sdb1''"
        and mps = "[]" and unmountErr = NoError and setLabelErr = "Other_error 2"]
    by simp
qed

text \<open>
  Claim C6 as stated fails: for an entry that cannot be renamed, with a mount point and a
  new name, nothing is unmounted and the call returns \<open>false\<close>; and for a device with two
  mount points one unmount call is made, not one for each.
\<close>

theorem not_renameable_counterexample:
  "\<not> canSetAlias fi_locked \<and> ''DATA'' \<noteq> udisksDisplayName fi_locked
   \<and> [''/media/user/KEY''] \<noteq> []
   \<and> renameFile Map.empty fi_locked ''DATA'' ''/org/freedesktop/UDisks2/block_devices/sdb1''
        [''/media/user/KEY''] NoError NoError
      = \<lparr> rr_end = Returned False, rr_settings = Map.empty, rr_ghost = [], rr_calls = [] \<rparr>
   \<and> \<not> canSetAlias fi_label \<and> ''DATA'' \<noteq> udisksDisplayName fi_label
   \<and> length [''/media/user/KEY'', ''/mnt/key''] = 2
   \<and> rr_calls (renameFile Map.empty fi_label ''DATA'' ''/org/freedesktop/UDisks2/block_devices/sdb1''
        [''/media/user/KEY'', ''/mnt/key''] NoError NoError)
      = [Call_unmount, Call_setLabel ''DATA'']"
  by (simp add: renameFile_def fi_label_def fi_locked_def)

section \<open>Properties of the enumeration\<close>

lemma toPercentEncoding_append:
  "toPercentEncoding (a @ b) = toPercentEncoding a @ toPercentEncoding b"
  by (simp add: toPercentEncoding_def)

lemma toPercentEncoding_suffix:
  "toPercentEncoding (''.'' @ SUFFIX_GVFSMP) = ''.'' @ SUFFIX_GVFSMP"
  by (simp add: toPercentEncoding_def SUFFIX_GVFSMP_def percent_encode_char_def unreserved_def)

lemma stash_key_is_gvfs_key:
  "CHR ''/'' # toPercentEncoding (k @ CHR ''.'' # SUFFIX_GVFSMP) = gvfs_key k"
  using toPercentEncoding_suffix
  by (simp add: gvfs_key_def toPercentEncoding_append)

lemma mount_fold_urllist:
  "set (snd (fold (mount_step env) ms (ret, ul)))
     = set ul \<union> {gvfs_key (file_path rf) | m rf.
          m \<in> set ms \<and> \<not> mount_skipped env m \<and> getRootFile m = Some rf}"
proof (induction ms arbitrary: ret ul)
  case Nil
  show ?case by simp
next
  case (Cons m ms)
  show ?case
  proof (cases "mount_skipped env m")
    case True
    then show ?thesis using Cons [of ret ul] by (auto simp: mount_step_def)
  next
    case False
    then obtain rf where rf: "getRootFile m = Some rf"
      by (auto simp: mount_skipped_def split: option.splits)
    show ?thesis
    proof (cases "gvfs_key (file_path rf) \<in> set ul")
      case True
      with False rf show ?thesis using Cons [of ret ul] by (auto simp: mount_step_def)
    next
      case nin: False
      with False rf show ?thesis
        using Cons [of "if gvfsmp_exists env (gvfs_key (file_path rf))
                        then ret @ [DUrl_scheme_path DFMROOT_SCHEME (gvfs_key (file_path rf))] else ret"
                       "ul @ [gvfs_key (file_path rf)]"]
        by (auto simp: mount_step_def Let_def)
    qed
  qed
qed

lemma mount_step_snd:
  "snd (mount_step env m (ret, ul)) = snd (mount_step env m (ret', ul))"
  by (simp add: mount_step_def Let_def split: option.splits)

lemma mount_fold_urllist_ret:
  "snd (fold (mount_step env) ms (ret, ul)) = snd (fold (mount_step env) ms (ret', ul))"
proof (induction ms arbitrary: ret ret' ul)
  case Nil
  show ?case by simp
next
  case (Cons m ms)
  obtain a b where ab: "mount_step env m (ret, ul) = (a, b)" by (cases "mount_step env m (ret, ul)")
  obtain a' b' where ab': "mount_step env m (ret', ul) = (a', b')" by (cases "mount_step env m (ret', ul)")
  from ab ab' mount_step_snd [of env m ret ul ret'] have "b = b'" by simp
  with ab ab' show ?case using Cons [of a b a'] by simp
qed

lemma mount_fold_count:
  "count_list (fst (fold (mount_step env) ms (ret, ul))) (DUrl_scheme_path DFMROOT_SCHEME k)
     = count_list ret (DUrl_scheme_path DFMROOT_SCHEME k)
       + (if k \<notin> set ul \<and> gvfsmp_exists env k
             \<and> (\<exists>m \<in> set ms. \<exists>rf. \<not> mount_skipped env m \<and> getRootFile m = Some rf
                                    \<and> gvfs_key (file_path rf) = k)
          then 1 else 0)"
proof (induction ms arbitrary: ret ul)
  case Nil
  show ?case by simp
next
  case (Cons m ms)
  show ?case
  proof (cases "mount_skipped env m")
    case True
    then show ?thesis using Cons [of ret ul] by (auto simp: mount_step_def)
  next
    case False
    then obtain rf where rf: "getRootFile m = Some rf"
      by (auto simp: mount_skipped_def split: option.splits)
    show ?thesis
    proof (cases "gvfs_key (file_path rf) \<in> set ul")
      case True
      with False rf show ?thesis using Cons [of ret ul] by (auto simp: mount_step_def)
    next
      case nin: False
      with False rf show ?thesis
        using Cons [of "if gvfsmp_exists env (gvfs_key (file_path rf))
                        then ret @ [DUrl_scheme_path DFMROOT_SCHEME (gvfs_key (file_path rf))] else ret"
                       "ul @ [gvfs_key (file_path rf)]"]
        by (auto simp: mount_step_def Let_def)
    qed
  qed
qed

lemma stash_step_append: "stash_step env ul r ret = ret @ stash_step env ul r []"
  by (simp add: stash_step_def Let_def)

lemma stash_fold:
  "fold (stash_step env ul) rs ret = ret @ concat (map (\<lambda>r. stash_step env ul r []) rs)"
proof (induction rs arbitrary: ret)
  case Nil
  show ?case by simp
next
  case (Cons r rs)
  have "fold (stash_step env ul) (r # rs) ret = fold (stash_step env ul) rs (stash_step env ul r ret)"
    by simp
  also have "\<dots> = stash_step env ul r ret @ concat (map (\<lambda>r. stash_step env ul r []) rs)"
    by (rule Cons)
  also have "stash_step env ul r ret = ret @ stash_step env ul r []"
    by (rule stash_step_append)
  finally show ?case by simp
qed

lemma concat_removeAll:
  "f r = [] \<Longrightarrow> concat (map f (removeAll r rs)) = concat (map f rs)"
  by (induction rs) auto

lemma stash_fold_removeAll:
  "stash_step env ul r [] = [] \<Longrightarrow>
   fold (stash_step env ul) (removeAll r rs) ret = fold (stash_step env ul) rs ret"
  by (simp add: stash_fold concat_removeAll)

lemma stash_step_not_scheme_path:
  "DUrl_scheme_path s k \<notin> set (stash_step env ul r [])"
  by (simp add: stash_step_def Let_def)

lemma stash_fold_count:
  "count_list (fold (stash_step env ul) rs ret) (DUrl_scheme_path s k)
     = count_list ret (DUrl_scheme_path s k)"
proof -
  have "DUrl_scheme_path s k \<notin> set (concat (map (\<lambda>r. stash_step env ul r []) rs))"
    using stash_step_not_scheme_path by auto
  then show ?thesis by (simp add: stash_fold count_list_0_iff)
qed

lemma blk_step_ret:
  "x \<in> set (fst (blk_step env hsp dpl d acc)) \<Longrightarrow> x \<in> set (fst acc) \<or> (\<exists>s. x = DUrl_string s)"
  by (cases d; cases acc) (auto simp: blk_step_def Let_def split: if_splits)

lemma blk_fold_ret:
  "x \<in> set (fst (fold (blk_step env hsp dpl) ds acc)) \<Longrightarrow> x \<in> set (fst acc) \<or> (\<exists>s. x = DUrl_string s)"
proof (induction ds arbitrary: acc)
  case Nil
  then show ?case by simp
next
  case (Cons d ds)
  from Cons.prems have "x \<in> set (fst (fold (blk_step env hsp dpl) ds (blk_step env hsp dpl d acc)))"
    by simp
  then have "x \<in> set (fst (blk_step env hsp dpl d acc)) \<or> (\<exists>s. x = DUrl_string s)"
    by (rule Cons.IH)
  then show ?case using blk_step_ret by blast
qed

lemma remoteMounts_update_skipped:
  "mount_skipped (env\<lparr>remoteMounts := rs\<rparr>) = mount_skipped env"
  by (intro ext) (simp add: mount_skipped_def cong: option.case_cong)

lemma remoteMounts_update_steps:
  "blk_step (env\<lparr>remoteMounts := rs\<rparr>) = blk_step env"
  "mount_step (env\<lparr>remoteMounts := rs\<rparr>) = mount_step env"
  "stash_step (env\<lparr>remoteMounts := rs\<rparr>) = stash_step env"
  by (intro ext; simp add: blk_step_def mount_step_def stash_step_def reloadBlkName_def
        remoteMounts_update_skipped Let_def
        cong: option.case_cong prod.case_cong list.case_cong if_cong)+

lemma blk_fold_no_scheme_path:
  "DUrl_scheme_path s k \<notin> set (fst (fold (blk_step env hsp dpl) ds (map f xs, hsd, log)))"
  if "\<And>x. \<exists>t. f x = DUrl_string t"
proof
  assume "DUrl_scheme_path s k \<in> set (fst (fold (blk_step env hsp dpl) ds (map f xs, hsd, log)))"
  then have "DUrl_scheme_path s k \<in> set (fst (map f xs, hsd, log)) \<or> (\<exists>t. DUrl_scheme_path s k = DUrl_string t)"
    by (rule blk_fold_ret)
  then obtain x where "DUrl_scheme_path s k = f x" by auto
  with that [of x] show False by auto
qed

lemma gc_ret_root:
  assumes root: "url_scheme (ev_url ev) = DFMROOT_SCHEME" "url_path (ev_url ev) = ''/''"
    and nc: "\<not> canconst ev"
  shows "gc_ret (getChildren env ev) =
     (if GA_AlwaysShowOfflineRemoteConnections env
      then fold (stash_step env (snd (fold (mount_step env) (getMounts env)
               (fst (fold (blk_step env (DISK_HIDDEN env \<noteq> None)
                       (case DISK_HIDDEN env of None \<Rightarrow> [] | Some l \<Rightarrow> l))
                     (blockDevices env)
                     (map (\<lambda>d. DUrl_string (DFMROOT_ROOT @ d @ ''.'' @ SUFFIX_USRDIR))
                        (filter (userdir_exists env) udir), [],
                      (if DTK_POLICY_SUPPORT env then [Query_GroupPolicy] else []) @ [Query_blockDevices])), []))))
             (remoteMounts env)
             (fst (fold (mount_step env) (getMounts env)
               (fst (fold (blk_step env (DISK_HIDDEN env \<noteq> None)
                       (case DISK_HIDDEN env of None \<Rightarrow> [] | Some l \<Rightarrow> l))
                     (blockDevices env)
                     (map (\<lambda>d. DUrl_string (DFMROOT_ROOT @ d @ ''.'' @ SUFFIX_USRDIR))
                        (filter (userdir_exists env) udir), [],
                      (if DTK_POLICY_SUPPORT env then [Query_GroupPolicy] else []) @ [Query_blockDevices])), [])))
      else fst (fold (mount_step env) (getMounts env)
               (fst (fold (blk_step env (DISK_HIDDEN env \<noteq> None)
                       (case DISK_HIDDEN env of None \<Rightarrow> [] | Some l \<Rightarrow> l))
                     (blockDevices env)
                     (map (\<lambda>d. DUrl_string (DFMROOT_ROOT @ d @ ''.'' @ SUFFIX_USRDIR))
                        (filter (userdir_exists env) udir), [],
                      (if DTK_POLICY_SUPPORT env then [Query_GroupPolicy] else []) @ [Query_blockDevices])), [])))"
proof -
  let ?ret0 = "map (\<lambda>d. DUrl_string (DFMROOT_ROOT @ d @ ''.'' @ SUFFIX_USRDIR))
                     (filter (userdir_exists env) udir)"
  let ?hsp = "DISK_HIDDEN env \<noteq> None"
  let ?dpl = "case DISK_HIDDEN env of None \<Rightarrow> [] | Some l \<Rightarrow> l"
  let ?log0 = "(if DTK_POLICY_SUPPORT env then [Query_GroupPolicy] else []) @ [Query_blockDevices]"
  obtain ret1 hsd log1 where
    f: "fold (blk_step env ?hsp ?dpl) (blockDevices env) (?ret0, [], ?log0) = (ret1, hsd, log1)"
    by (rule prod_cases3)
  obtain ret2 ul where g: "fold (mount_step env) (getMounts env) (ret1, []) = (ret2, ul)"
    by (cases "fold (mount_step env) (getMounts env) (ret1, [])")
  show ?thesis
    unfolding getChildren_def Let_def
    using root nc
    by (simp only: f g prod.case fst_conv snd_conv
          if_False if_True simp_thms children.simps split: if_split)
qed


lemma stash_step_skip:
  assumes "(\<exists>k. r REMOTE_KEY = Some k \<and> gvfs_key k \<in> set ul)
      \<or> isIntegrationMode env
      \<or> r REMOTE_PROTOCOL = None \<or> r REMOTE_HOST = None
      \<or> r REMOTE_PROTOCOL = Some [] \<or> r REMOTE_HOST = Some []"
  shows "stash_step env ul r [] = []"
  using assms
  by (auto simp: stash_step_def Let_def value_toString_def stash_key_is_gvfs_key)

text \<open>
  Claim C7, as amended. For a request on the root that is not flagged \<open>canconst\<close>: a live
  mount that passes the tests of the loop and whose info exists is listed exactly once, as
  the live entry; and a stashed record adds nothing to the list (the list is the same
  without the record) when its key is the key of a live mount that passed the tests, when
  the SMB integration mode is on, or when its protocol or host is missing or empty.
\<close>

theorem getChildren_stash_dedup:
  assumes root: "url_scheme (ev_url ev) = DFMROOT_SCHEME" "url_path (ev_url ev) = ''/''"
    and nc: "\<not> canconst ev"
  shows "(m \<in> set (getMounts env) \<and> \<not> mount_skipped env m \<and> getRootFile m = Some rf
            \<and> gvfsmp_exists env (gvfs_key (file_path rf))
          \<longrightarrow> count_list (gc_ret (getChildren env ev))
                 (DUrl_scheme_path DFMROOT_SCHEME (gvfs_key (file_path rf))) = 1)
       \<and> ((\<exists>m' \<in> set (getMounts env). \<exists>rf' k. \<not> mount_skipped env m' \<and> getRootFile m' = Some rf'
               \<and> r REMOTE_KEY = Some k \<and> gvfs_key k = gvfs_key (file_path rf'))
            \<or> isIntegrationMode env
            \<or> r REMOTE_PROTOCOL = None \<or> r REMOTE_HOST = None
            \<or> r REMOTE_PROTOCOL = Some [] \<or> r REMOTE_HOST = Some []
          \<longrightarrow> gc_ret (getChildren (env\<lparr>remoteMounts := removeAll r (remoteMounts env)\<rparr>) ev)
                = gc_ret (getChildren env ev))"
proof (intro conjI impI)
  let ?ret1 = "fst (fold (blk_step env (DISK_HIDDEN env \<noteq> None)
                       (case DISK_HIDDEN env of None \<Rightarrow> [] | Some l \<Rightarrow> l))
                     (blockDevices env)
                     (map (\<lambda>d. DUrl_string (DFMROOT_ROOT @ d @ ''.'' @ SUFFIX_USRDIR))
                        (filter (userdir_exists env) udir), [],
                      (if DTK_POLICY_SUPPORT env then [Query_GroupPolicy] else []) @ [Query_blockDevices]))"
  let ?ul = "snd (fold (mount_step env) (getMounts env) (?ret1, []))"
  {
    assume a: "m \<in> set (getMounts env) \<and> \<not> mount_skipped env m \<and> getRootFile m = Some rf
            \<and> gvfsmp_exists env (gvfs_key (file_path rf))"
    let ?e = "DUrl_scheme_path DFMROOT_SCHEME (gvfs_key (file_path rf))"
    have "?e \<notin> set ?ret1"
      by (rule blk_fold_no_scheme_path) blast
    then have z: "count_list ?ret1 ?e = 0" by (simp add: count_list_0_iff)
    have w: "\<exists>m \<in> set (getMounts env). \<exists>rf'. \<not> mount_skipped env m \<and> getRootFile m = Some rf'
             \<and> gvfs_key (file_path rf') = gvfs_key (file_path rf)"
      using a by blast
    have c: "count_list (fst (fold (mount_step env) (getMounts env) (?ret1, []))) ?e = 1"
      unfolding mount_fold_count z using w a by simp
    show "count_list (gc_ret (getChildren env ev)) ?e = 1"
      unfolding gc_ret_root [OF root nc] using c by (simp add: stash_fold_count)
  }
  {
    assume s: "(\<exists>m' \<in> set (getMounts env). \<exists>rf' k. \<not> mount_skipped env m' \<and> getRootFile m' = Some rf'
               \<and> r REMOTE_KEY = Some k \<and> gvfs_key k = gvfs_key (file_path rf'))
            \<or> isIntegrationMode env
            \<or> r REMOTE_PROTOCOL = None \<or> r REMOTE_HOST = None
            \<or> r REMOTE_PROTOCOL = Some [] \<or> r REMOTE_HOST = Some []"
    have "(\<exists>k. r REMOTE_KEY = Some k \<and> gvfs_key k \<in> set ?ul)
      \<or> isIntegrationMode env
      \<or> r REMOTE_PROTOCOL = None \<or> r REMOTE_HOST = None
      \<or> r REMOTE_PROTOCOL = Some [] \<or> r REMOTE_HOST = Some []"
      using s unfolding mount_fold_urllist by fastforce
    then have e: "stash_step env ?ul r [] = []" by (rule stash_step_skip)
    have "gc_ret (getChildren (env\<lparr>remoteMounts := removeAll r (remoteMounts env)\<rparr>) ev)
        = (if GA_AlwaysShowOfflineRemoteConnections env
           then fold (stash_step env ?ul) (removeAll r (remoteMounts env))
                  (fst (fold (mount_step env) (getMounts env) (?ret1, [])))
           else fst (fold (mount_step env) (getMounts env) (?ret1, [])))"
      unfolding gc_ret_root [OF root nc] by (simp add: remoteMounts_update_steps)
    also have "\<dots> = gc_ret (getChildren env ev)"
      unfolding gc_ret_root [OF root nc] using e by (simp add: stash_fold_removeAll)
    finally show "gc_ret (getChildren (env\<lparr>remoteMounts := removeAll r (remoteMounts env)\<rparr>) ev)
                = gc_ret (getChildren env ev)" .
  }
qed

theorem getChildren_stash_dedup_witness:
  "url_scheme (ev_url (root_event False)) = DFMROOT_SCHEME
   \<and> url_path (ev_url (root_event False)) = ''/'' \<and> \<not> canconst (root_event False)
   \<and> smb_live \<in> set (getMounts env_example) \<and> \<not> mount_skipped env_example smb_live
   \<and> getRootFile smb_live = Some \<lparr> uri = ''smb://nas/media/'', file_path = ''/run/gvfs/smb'' \<rparr>
   \<and> gvfsmp_exists env_example (gvfs_key ''/run/gvfs/smb'')
   \<and> stash_live \<in> set (remoteMounts env_example) \<and> stash_live REMOTE_KEY = Some ''/run/gvfs/smb''
   \<and> count_list (gc_ret (getChildren env_example (root_event False)))
        (DUrl_scheme_path DFMROOT_SCHEME (gvfs_key ''/run/gvfs/smb'')) = 1
   \<and> gc_ret (getChildren (env_example\<lparr>remoteMounts := removeAll stash_live (remoteMounts env_example)\<rparr>)
        (root_event False))
      = gc_ret (getChildren env_example (root_event False))"
proof -
  let ?rf = "\<lparr> uri = ''smb://nas/media/'', file_path = ''/run/gvfs/smb'' \<rparr>"
  have root: "url_scheme (ev_url (root_event False)) = DFMROOT_SCHEME"
    "url_path (ev_url (root_event False)) = ''/''"
    and nc: "\<not> canconst (root_event False)"
    by (simp_all add: root_event_def)
  have m: "smb_live \<in> set (getMounts env_example)" "getRootFile smb_live = Some ?rf"
    "gvfsmp_exists env_example (gvfs_key (file_path ?rf))"
    "stash_live \<in> set (remoteMounts env_example)" "stash_live REMOTE_KEY = Some ''/run/gvfs/smb''"
    by (simp_all add: env_example_def smb_live_def stash_live_def REMOTE_KEY_def REMOTE_PROTOCOL_def
        REMOTE_HOST_def REMOTE_SHARE_def)
  have sk: "\<not> mount_skipped env_example smb_live"
    by (simp add: mount_skipped_def env_example_def smb_live_def uri_scheme_def startsWith_def
        BURN_SCHEME_def)
  have ex: "\<exists>m' \<in> set (getMounts env_example). \<exists>rf' k. \<not> mount_skipped env_example m'
      \<and> getRootFile m' = Some rf' \<and> stash_live REMOTE_KEY = Some k
      \<and> gvfs_key k = gvfs_key (file_path rf')"
    using m sk by (intro bexI [of _ smb_live] exI [of _ ?rf] exI [of _ "''/run/gvfs/smb''"]) simp_all
  from getChildren_stash_dedup [OF root nc, of smb_live env_example ?rf stash_live] m sk ex root nc
  show ?thesis by simp
qed

text \<open>
  Claim C7 as stated fails: with offline connections shown and a mount that is live and
  stashed, a \<open>canconst\<close> request lists no entry for the mount; and when the info of the
  live mount does not exist, neither the live nor the stashed entry is listed.
\<close>

theorem canconst_counterexample:
  "GA_AlwaysShowOfflineRemoteConnections env_example
   \<and> smb_live \<in> set (getMounts env_example) \<and> \<not> mount_skipped env_example smb_live
   \<and> getRootFile smb_live = Some \<lparr> uri = ''smb://nas/media/'', file_path = ''/run/gvfs/smb'' \<rparr>
   \<and> stash_live \<in> set (remoteMounts env_example) \<and> stash_live REMOTE_KEY = Some ''/run/gvfs/smb''
   \<and> ev_url (root_event True) = \<lparr> url_scheme = DFMROOT_SCHEME, url_path = ''/'' \<rparr>
   \<and> gc_ret (getChildren env_example (root_event True))
      = [DUrl_string ''dfmroot:///desktop.userdir'', DUrl_string ''dfmroot:///sdb1.localdisk'']
   \<and> gc_ret (getChildren (env_example\<lparr>gvfsmp_exists := \<lambda>p. False\<rparr>) (root_event False))
      = [DUrl_string ''dfmroot:///desktop.userdir'', DUrl_string ''dfmroot:///sdb1.localdisk'',
         DUrl_fromPercentEncoding ''dfmroot:///ftp://old/.remote'']"
proof -
  have 1: "GA_AlwaysShowOfflineRemoteConnections env_example
   \<and> smb_live \<in> set (getMounts env_example)
   \<and> getRootFile smb_live = Some \<lparr> uri = ''smb://nas/media/'', file_path = ''/run/gvfs/smb'' \<rparr>
   \<and> stash_live \<in> set (remoteMounts env_example) \<and> stash_live REMOTE_KEY = Some ''/run/gvfs/smb''
   \<and> ev_url (root_event True) = \<lparr> url_scheme = DFMROOT_SCHEME, url_path = ''/'' \<rparr>"
    by (simp add: env_example_def smb_live_def stash_live_def REMOTE_KEY_def REMOTE_PROTOCOL_def
        REMOTE_HOST_def REMOTE_SHARE_def root_event_def)
  have 2: "\<not> mount_skipped env_example smb_live"
    by (simp add: mount_skipped_def env_example_def smb_live_def uri_scheme_def startsWith_def
        BURN_SCHEME_def)
  have 3: "gc_ret (getChildren env_example (root_event True))
      = [DUrl_string ''dfmroot:///desktop.userdir'', DUrl_string ''dfmroot:///sdb1.localdisk'']"
    by (simp add: getChildren_def Let_def udir_def blk_step_def ignoreBlkDevice_def reloadBlkName_def
      mid_def startsWith_def env_example_def root_event_def dev_sdb1_def
      DFMROOT_SCHEME_def DFMROOT_ROOT_def SUFFIX_USRDIR_def SUFFIX_UDISKS_def)
  have 4: "gc_ret (getChildren (env_example\<lparr>gvfsmp_exists := \<lambda>p. False\<rparr>) (root_event False))
      = [DUrl_string ''dfmroot:///desktop.userdir'', DUrl_string ''dfmroot:///sdb1.localdisk'',
         DUrl_fromPercentEncoding ''dfmroot:///ftp://old/.remote'']"
    by (simp add: getChildren_def Let_def udir_def blk_step_def ignoreBlkDevice_def reloadBlkName_def
      mount_step_def mount_skipped_def uri_scheme_def stash_step_def gvfs_key_def value_toString_def
      mid_def startsWith_def toPercentEncoding_def percent_encode_char_def unreserved_def
      hex_digit_def env_example_def root_event_def smb_live_def stash_live_def stash_offline_def
      dev_sdb1_def DFMROOT_SCHEME_def DFMROOT_ROOT_def SUFFIX_USRDIR_def SUFFIX_GVFSMP_def
      SUFFIX_UDISKS_def SUFFIX_STASHED_REMOTE_def BURN_SCHEME_def REMOTE_KEY_def
      REMOTE_PROTOCOL_def REMOTE_HOST_def REMOTE_SHARE_def)
  from 1 2 3 4 show ?thesis by simp
qed

text \<open>
  Claim C10. For a request whose scheme is not that of the root or whose path is not \<open>/\<close>,
  \<open>getChildren\<close> returns the empty list, whatever the backend holds, and makes no access.
\<close>

theorem getChildren_not_root:
  "url_scheme (ev_url ev) \<noteq> DFMROOT_SCHEME \<or> url_path (ev_url ev) \<noteq> ''/''
   \<Longrightarrow> getChildren env ev = \<lparr> gc_ret = [], gc_log = [] \<rparr>"
  by (simp add: getChildren_def)

theorem getChildren_not_root_witness:
  "getChildren env_example \<lparr> ev_url = \<lparr> url_scheme = ''computer'', url_path = ''/'' \<rparr>, canconst = False \<rparr>
     = \<lparr> gc_ret = [], gc_log = [] \<rparr>
   \<and> getChildren env_example \<lparr> ev_url = \<lparr> url_scheme = ''dfmroot'', url_path = ''/sdb1.localdisk'' \<rparr>,
        canconst = False \<rparr>
     = \<lparr> gc_ret = [], gc_log = [] \<rparr>
   \<and> gc_log (getChildren env_example (root_event True)) = [Query_blockDevices, Query_getVolumes]"
proof -
  have 3: "gc_log (getChildren env_example (root_event True)) = [Query_blockDevices, Query_getVolumes]"
    by (simp add: getChildren_def Let_def udir_def blk_step_def ignoreBlkDevice_def reloadBlkName_def
      mid_def startsWith_def env_example_def root_event_def dev_sdb1_def
      DFMROOT_SCHEME_def DFMROOT_ROOT_def SUFFIX_USRDIR_def SUFFIX_UDISKS_def)
  show ?thesis
    using getChildren_not_root [of "\<lparr> ev_url = \<lparr> url_scheme = ''computer'', url_path = ''/'' \<rparr>, canconst = False \<rparr>" env_example]
      getChildren_not_root [of "\<lparr> ev_url = \<lparr> url_scheme = ''dfmroot'', url_path = ''/sdb1.localdisk'' \<rparr>, canconst = False \<rparr>" env_example]
      3
    by (simp add: DFMROOT_SCHEME_def)
qed

section \<open>Properties of address equality\<close>







text \<open>
  The two renderings differ for an absolute path under a scheme of the list other than
  \<open>file\<close>, where \<open>DUrl::toString\<close> writes two more slashes. There the operator is not
  symmetric: it takes \<open>computer:/a\<close> on the left for \<open>computer:/a/\<close> on the right and
  not the other way round.
\<close>

lemma DUrl_eq_not_symmetric:
  "DUrl_eq (computer_url ''/a'') (computer_url ''/a/'')
   \<and> \<not> DUrl_eq (computer_url ''/a/'') (computer_url ''/a'')"
  by (simp add: DUrl_eq_def DUrl_toString_def QUrl_toString_def QUrl_isValid_def isLocalFile_def
        replace_at0_def computer_url_def schemeList_def startsWith_def Let_def)




end
